theory Spec2Isabelle
  imports Main "HOL-Library.Sublist"
begin

section \<open>Strings, bytes and numbers\<close>

text \<open>
  A JavaScript string is modelled by the list of its code units, restricted to code units
  below 256, so that a \<^typ>\<open>char\<close> is one code unit. A \<open>Buffer\<close> is a list of bytes, each a
  natural number below 256.
\<close>

text \<open>Template-literal formatting of a non-negative integer, as in \<^verbatim>\<open>`${this.port}`\<close>.\<close>

definition digit_char :: "nat \<Rightarrow> char" where
  "digit_char d = char_of (of_char (CHR ''0'') + d)"

fun decimal :: "nat \<Rightarrow> string" where
  "decimal n = (if 10 \<le> n then decimal (n div 10) @ [digit_char (n mod 10)] else [digit_char n])"

declare decimal.simps [simp del]

text \<open>\<^verbatim>\<open>Buffer.from(s)\<close>: the UTF-8 encoding of a string (code units below 256).\<close>

definition utf8_unit :: "char \<Rightarrow> nat list" where
  "utf8_unit c =
     (let n = (of_char c :: nat)
      in if n < 128 then [n] else [192 + n div 64, 128 + n mod 64])"

definition buffer_from :: "string \<Rightarrow> nat list" where
  "buffer_from s = concat (map utf8_unit s)"

text \<open>The base64 alphabet \<open>A-Z a-z 0-9 + /\<close>, by index.\<close>

definition b64_char :: "nat \<Rightarrow> char" where
  "b64_char n =
     (if n < 26 then char_of (65 + n)
      else if n < 52 then char_of (97 + (n - 26))
      else if n < 62 then char_of (48 + (n - 52))
      else if n = 62 then CHR ''+''
      else CHR ''/'')"

text \<open>\<^verbatim>\<open>buf.toString('base64')\<close>: three bytes give four characters, the tail is padded with \<open>=\<close>.\<close>

fun to_base64 :: "nat list \<Rightarrow> string" where
  "to_base64 (a # b # c # rest) =
     b64_char (a div 4) # b64_char ((a mod 4) * 16 + b div 16) #
     b64_char ((b mod 16) * 4 + c div 64) # b64_char (c mod 64) # to_base64 rest"
| "to_base64 [a, b] =
     [b64_char (a div 4), b64_char ((a mod 4) * 16 + b div 16),
      b64_char ((b mod 16) * 4), CHR ''='']"
| "to_base64 [a] =
     [b64_char (a div 4), b64_char ((a mod 4) * 16), CHR ''='', CHR ''='']"
| "to_base64 [] = []"

text \<open>The character class \<^verbatim>\<open>[a-zA-Z0-9]\<close>.\<close>

definition is_alnum :: "char \<Rightarrow> bool" where
  "is_alnum c =
     (let n = (of_char c :: nat)
      in (97 \<le> n \<and> n \<le> 122) \<or> (65 \<le> n \<and> n \<le> 90) \<or> (48 \<le> n \<and> n \<le> 57))"

text \<open>
  JavaScript white space (\<^verbatim>\<open>\s\<close>, and what \<^verbatim>\<open>trim()\<close> strips) among the code units below
  256: tab, line feed, vertical tab, form feed, carriage return, space, no-break space.
\<close>

definition is_space :: "char \<Rightarrow> bool" where
  "is_space c = ((of_char c :: nat) \<in> {9, 10, 11, 12, 13, 32, 160})"

definition is_digit :: "char \<Rightarrow> bool" where
  "is_digit c = (let n = (of_char c :: nat) in 48 \<le> n \<and> n \<le> 57)"

text \<open>\<^verbatim>\<open>String.prototype.toLowerCase\<close> on code units below 256.\<close>

definition lower_char :: "char \<Rightarrow> char" where
  "lower_char c =
     (let n = (of_char c :: nat)
      in if (65 \<le> n \<and> n \<le> 90) \<or> (192 \<le> n \<and> n \<le> 222 \<and> n \<noteq> 215)
         then char_of (n + 32) else c)"

definition toLowerCase :: "string \<Rightarrow> string" where
  "toLowerCase s = map lower_char s"

text \<open>\<^verbatim>\<open>s.endsWith(e)\<close>.\<close>

definition endsWith :: "string \<Rightarrow> string \<Rightarrow> bool" where
  "endsWith s e = (length e \<le> length s \<and> drop (length s - length e) s = e)"


section \<open>The local content server (\<open>HttpServer\<close>)\<close>

text \<open>
  \<open>server\<close> is \<open>None\<close> while the field is \<open>undefined\<close>; otherwise it holds the
  \<open>http.Server\<close> object, of which the model keeps whether it listens. \<open>port\<close> is the bound
  port (0 before the server listens), \<open>contentMap\<close> is the registry.
\<close>

record HttpServer =
  server :: "bool option"
  port :: nat
  contentMap :: "string \<rightharpoonup> string"

definition new_HttpServer :: HttpServer where
  "new_HttpServer = \<lparr>server = None, port = 0, contentMap = Map.empty\<rparr>"

definition listening :: "HttpServer \<Rightarrow> bool" where
  "listening srv = (server srv = Some True)"

definition getServerUrl :: "HttpServer \<Rightarrow> string" where
  "getServerUrl srv = ''http://localhost:'' @ decimal (port srv)"

text \<open>
  \<open>start\<close>: the operating system either assigns a port (\<open>Some p\<close>) or listening fails
  (\<open>None\<close>, the promise is rejected and the server object stays, not listening). When the
  field is set, \<open>start\<close> answers with the URL at once.
\<close>

definition start :: "nat option \<Rightarrow> HttpServer \<Rightarrow> (unit + string) \<times> HttpServer" where
  "start bound srv =
     (if server srv \<noteq> None then (Inr (getServerUrl srv), srv)
      else case bound of
        Some p \<Rightarrow>
          (let srv' = srv\<lparr>server := Some True, port := p\<rparr> in (Inr (getServerUrl srv'), srv'))
      | None \<Rightarrow> (Inl (), srv\<lparr>server := Some False\<rparr>))"

text \<open>
  The document id of \<open>registerContent\<close>, \<open>updateContent\<close> and \<open>removeContent\<close>:
  \<^verbatim>\<open>Buffer.from(documentUri).toString('base64').replace(/[^a-zA-Z0-9]/g, '').substring(0, 32)\<close>.
\<close>

definition docId :: "string \<Rightarrow> string" where
  "docId documentUri = take 32 (filter is_alnum (to_base64 (buffer_from documentUri)))"

definition registerContent :: "string \<Rightarrow> string \<Rightarrow> HttpServer \<Rightarrow> string \<times> HttpServer" where
  "registerContent documentUri content srv =
     (let srv' = srv\<lparr>contentMap := (contentMap srv)(docId documentUri \<mapsto> content)\<rparr>
      in (getServerUrl srv' @ ''/doc/'' @ docId documentUri, srv'))"

definition updateContent :: "string \<Rightarrow> string \<Rightarrow> HttpServer \<Rightarrow> HttpServer" where
  "updateContent documentUri content srv =
     srv\<lparr>contentMap := (contentMap srv)(docId documentUri \<mapsto> content)\<rparr>"

definition removeContent :: "string \<Rightarrow> HttpServer \<Rightarrow> HttpServer" where
  "removeContent documentUri srv =
     srv\<lparr>contentMap := (contentMap srv)(docId documentUri := None)\<rparr>"

definition dispose_server :: "HttpServer \<Rightarrow> HttpServer" where
  "dispose_server srv =
     (if server srv \<noteq> None then srv\<lparr>server := None, contentMap := Map.empty\<rparr> else srv)"

record response =
  status :: nat
  headers :: "(string \<times> string) list"
  body :: string

definition cors_headers :: "(string \<times> string) list" where
  "cors_headers =
     [(''Access-Control-Allow-Origin'', ''*''),
      (''Access-Control-Allow-Methods'', ''GET, OPTIONS''),
      (''Access-Control-Allow-Headers'', ''Content-Type'')]"

text \<open>
  \<^verbatim>\<open>req.url?.match(/^\/doc\/([^/]+)/)\<close>: the capture group is the longest run of characters
  other than \<open>/\<close> after the prefix \<open>/doc/\<close>, and it must not be empty.
\<close>

definition match_doc_path :: "string option \<Rightarrow> string option" where
  "match_doc_path url =
     (case url of
        None \<Rightarrow> None
      | Some u \<Rightarrow>
          if take 5 u = ''/doc/''
          then (let m = takeWhile (\<lambda>c. c \<noteq> CHR ''/'') (drop 5 u)
                in if m = [] then None else Some m)
          else None)"

text \<open>\<^verbatim>\<open>content.trim().startsWith('{')\<close>.\<close>

definition starts_with_brace :: "string \<Rightarrow> bool" where
  "starts_with_brace content =
     (case dropWhile is_space content of [] \<Rightarrow> False | c # _ \<Rightarrow> c = CHR ''{'')"

text \<open>
  The request handler installed by \<open>start\<close>, from the request's method and URL to the
  response written. \<^verbatim>\<open>if (!content)\<close> is true for a missing entry and for the empty string.
\<close>

definition handle_request :: "HttpServer \<Rightarrow> string \<Rightarrow> string option \<Rightarrow> response" where
  "handle_request srv method url =
     (if method = ''OPTIONS'' then \<lparr>status = 200, headers = cors_headers, body = ''''\<rparr>
      else if method \<noteq> ''GET''
        then \<lparr>status = 405, headers = cors_headers, body = ''Method Not Allowed''\<rparr>
      else case match_doc_path url of
        None \<Rightarrow> \<lparr>status = 404, headers = cors_headers, body = ''Not Found''\<rparr>
      | Some did \<Rightarrow>
          (case contentMap srv did of
             None \<Rightarrow> \<lparr>status = 404, headers = cors_headers, body = ''Document Not Found''\<rparr>
           | Some content \<Rightarrow>
               if content = ''''
               then \<lparr>status = 404, headers = cors_headers, body = ''Document Not Found''\<rparr>
               else \<lparr>status = 200,
                     headers = cors_headers @
                       [(''Content-Type'',
                         if starts_with_brace content then ''application/json'' else ''text/yaml''),
                        (''Cache-Control'', ''no-cache, no-store, must-revalidate'')],
                     body = content\<rparr>))"

text \<open>
  A client's GET of an absolute URL: it reaches the handler when the server listens and the
  URL is the server's base URL followed by a path, which becomes \<open>req.url\<close>; otherwise
  there is no response.
\<close>

definition http_get :: "HttpServer \<Rightarrow> string \<Rightarrow> response option" where
  "http_get srv url =
     (let base = getServerUrl srv; path = drop (length base) url
      in if listening srv \<and> take (length base) url = base \<and> take 1 path = ''/''
         then Some (handle_request srv ''GET'' (Some path))
         else None)"

text \<open>The scenarios of a round trip: register, optionally update, then fetch the URL.\<close>

definition started_server :: HttpServer where
  "started_server = snd (start (Some 3000) new_HttpServer)"

definition register_then_get :: "string \<Rightarrow> string \<Rightarrow> HttpServer \<Rightarrow> response option" where
  "register_then_get documentUri content srv =
     (let (url, srv') = registerContent documentUri content srv in http_get srv' url)"

definition register_update_then_get ::
  "string \<Rightarrow> string \<Rightarrow> string \<Rightarrow> HttpServer \<Rightarrow> response option" where
  "register_update_then_get documentUri content content2 srv =
     (let (url, srv') = registerContent documentUri content srv
      in http_get (updateContent documentUri content2 srv') url)"

text \<open>
  The view's handler of an \<open>update\<close> message (the script of \<open>getHtmlContent\<close>) reloads the
  document from \<^verbatim>\<open>currentUrl.split('?')[0] + '?t=' + Date.now()\<close>, where \<open>currentUrl\<close> is the
  URL the view was created with, the one \<open>registerContent\<close> returned.
\<close>

definition newUrl :: "string \<Rightarrow> nat \<Rightarrow> string" where
  "newUrl currentUrl now = takeWhile (\<lambda>c. c \<noteq> CHR ''?'') currentUrl @ ''?t='' @ decimal now"

text \<open>The same scenarios with the fetch the view makes after an \<open>update\<close> message.\<close>

definition register_then_reload :: "string \<Rightarrow> string \<Rightarrow> nat \<Rightarrow> HttpServer \<Rightarrow> response option" where
  "register_then_reload documentUri content now srv =
     (let (url, srv') = registerContent documentUri content srv in http_get srv' (newUrl url now))"

definition register_update_then_reload ::
  "string \<Rightarrow> string \<Rightarrow> string \<Rightarrow> nat \<Rightarrow> HttpServer \<Rightarrow> response option" where
  "register_update_then_reload documentUri content content2 now srv =
     (let (url, srv') = registerContent documentUri content srv
      in http_get (updateContent documentUri content2 srv') (newUrl url now))"




section \<open>Regular expressions\<close>

text \<open>
  The patterns of the source are matched by derivatives. An atom is a character class;
  \<^verbatim>\<open>RegExp.prototype.test\<close> of a pattern without anchors asks whether some substring of the
  input is in the pattern's language, which is what \<open>rx_test\<close> decides.
\<close>

datatype rx = Never | Eps | Atom "char \<Rightarrow> bool" | Seq rx rx | Alt rx rx | Star rx

fun accepts_empty :: "rx \<Rightarrow> bool" where
  "accepts_empty Never = False"
| "accepts_empty Eps = True"
| "accepts_empty (Atom p) = False"
| "accepts_empty (Seq r s) = (accepts_empty r \<and> accepts_empty s)"
| "accepts_empty (Alt r s) = (accepts_empty r \<or> accepts_empty s)"
| "accepts_empty (Star r) = True"

text \<open>Sequence and choice that drop the dead branches, to keep derivatives small.\<close>

fun mk_seq :: "rx \<Rightarrow> rx \<Rightarrow> rx" where
  "mk_seq Never s = Never"
| "mk_seq Eps s = s"
| "mk_seq r s = Seq r s"

fun mk_alt :: "rx \<Rightarrow> rx \<Rightarrow> rx" where
  "mk_alt Never s = s"
| "mk_alt r Never = r"
| "mk_alt r s = Alt r s"

text \<open>What is left of the pattern after reading one character.\<close>

fun after_char :: "char \<Rightarrow> rx \<Rightarrow> rx" where
  "after_char c Never = Never"
| "after_char c Eps = Never"
| "after_char c (Atom p) = (if p c then Eps else Never)"
| "after_char c (Seq r s) =
     (if accepts_empty r then mk_alt (mk_seq (after_char c r) s) (after_char c s)
      else mk_seq (after_char c r) s)"
| "after_char c (Alt r s) = mk_alt (after_char c r) (after_char c s)"
| "after_char c (Star r) = mk_seq (after_char c r) (Star r)"

text \<open>Some prefix of the input is in the language of the pattern.\<close>

fun rx_prefix :: "rx \<Rightarrow> string \<Rightarrow> bool" where
  "rx_prefix r [] = accepts_empty r"
| "rx_prefix r (c # cs) = (accepts_empty r \<or> rx_prefix (after_char c r) cs)"

text \<open>Some substring of the input is in the language of the pattern.\<close>

fun rx_test :: "rx \<Rightarrow> string \<Rightarrow> bool" where
  "rx_test r [] = accepts_empty r"
| "rx_test r (c # cs) = (rx_prefix r (c # cs) \<or> rx_test r cs)"

text \<open>
  The language of a pattern, against which the matcher is proved: the strings of a
  repetition are the concatenations of strings of its body.
\<close>

inductive_set repetitions :: "string set \<Rightarrow> string set" for A :: "string set" where
  none: "[] \<in> repetitions A"
| more: "u \<in> A \<Longrightarrow> v \<in> repetitions A \<Longrightarrow> u @ v \<in> repetitions A"

fun lang :: "rx \<Rightarrow> string set" where
  "lang Never = {}"
| "lang Eps = {[]}"
| "lang (Atom p) = {w. \<exists>c. w = [c] \<and> p c}"
| "lang (Seq r s) = {w. \<exists>u v. w = u @ v \<and> u \<in> lang r \<and> v \<in> lang s}"
| "lang (Alt r s) = lang r \<union> lang s"
| "lang (Star r) = repetitions (lang r)"

definition rx_opt :: "rx \<Rightarrow> rx" where
  "rx_opt r = Alt r Eps"

definition rx_plus :: "rx \<Rightarrow> rx" where
  "rx_plus r = Seq r (Star r)"

fun rx_seqs :: "rx list \<Rightarrow> rx" where
  "rx_seqs [] = Eps"
| "rx_seqs [r] = r"
| "rx_seqs (r # rs) = Seq r (rx_seqs rs)"

text \<open>
  A lower-case ASCII letter of a pattern under the \<open>i\<close> flag matches itself and its upper
  case; no code unit of 128 or more is canonicalised to an ASCII letter.
\<close>

definition ignore_case_eq :: "char \<Rightarrow> char \<Rightarrow> bool" where
  "ignore_case_eq c x = (x = c \<or> (of_char x :: nat) + 32 = of_char c)"

fun rx_word_i :: "string \<Rightarrow> rx" where
  "rx_word_i [] = Eps"
| "rx_word_i [c] = Atom (ignore_case_eq c)"
| "rx_word_i (c # cs) = Seq (Atom (ignore_case_eq c)) (rx_word_i cs)"


section \<open>The file classifier\<close>

text \<open>
  A \<open>vscode.Uri\<close> with the three views of it that the source reads, and a value that was
  thrown: an object (whether it is an \<open>Error\<close>, its \<open>code\<close> if any, its message) or
  anything else.
\<close>

record Uri =
  fsPath :: string
  uri_path :: string
  uri_toString :: string

datatype thrown = ThrownObject (is_Error: bool) (code: "string option") (message: string) | ThrownOther

text \<open>A \<open>vscode.TextDocument\<close>: its URI and what \<open>getText()\<close> gives, a text or a throw.\<close>

record TextDocument =
  doc_uri :: Uri
  getText :: "thrown + string"

definition OPENAPI_EXTENSIONS :: "string list" where
  "OPENAPI_EXTENSIONS = [''.yaml'', ''.yml'', ''.json'']"

definition rx_quote :: rx where
  "rx_quote = Atom (\<lambda>c. c = CHR 0x22 \<or> c = CHR 0x27)"

definition rx_space :: rx where
  "rx_space = Atom is_space"

text \<open>
  \<^verbatim>\<open>/["']?\s*(openapi|swagger)\s*["']?\s*:\s*['"]?[\d.]+['"]?/im\<close>. The \<open>m\<close> flag changes only
  the anchors, and the pattern has none.
\<close>

definition OPENAPI_MARKER_REGEX :: rx where
  "OPENAPI_MARKER_REGEX =
     rx_seqs
      [rx_opt rx_quote, Star rx_space,
       Alt (rx_word_i ''openapi'') (rx_word_i ''swagger''),
       Star rx_space, rx_opt rx_quote, Star rx_space,
       Atom (\<lambda>c. c = CHR '':''), Star rx_space,
       rx_opt rx_quote, rx_plus (Atom (\<lambda>c. is_digit c \<or> c = CHR ''.'')), rx_opt rx_quote]"

definition hasOpenApiExtension :: "Uri \<Rightarrow> bool" where
  "hasOpenApiExtension uri =
     (let path = toLowerCase (fsPath uri) in list_ex (\<lambda>ext. endsWith path ext) OPENAPI_EXTENSIONS)"

definition hasOpenApiMarker :: "string \<Rightarrow> bool" where
  "hasOpenApiMarker text = rx_test OPENAPI_MARKER_REGEX text"

text \<open>
  \<open>isOpenApiDocument\<close>. The host's \<open>workspace.openTextDocument\<close> is a parameter that gives
  the document or throws. The result is the boolean the promise resolves to, with the list
  of URIs the function asked the host to open.
\<close>

definition isOpenApiDocument :: "(Uri \<Rightarrow> thrown + TextDocument) \<Rightarrow> Uri \<Rightarrow> bool \<times> Uri list" where
  "isOpenApiDocument openTextDocument uri =
     (if \<not> hasOpenApiExtension uri then (False, [])
      else case openTextDocument uri of
        Inl e \<Rightarrow> (False, [uri])
      | Inr doc \<Rightarrow>
          (case getText doc of
             Inl e \<Rightarrow> (False, [uri])
           | Inr text \<Rightarrow> (hasOpenApiMarker text, [uri])))"

definition isOpenApiTextDocument :: "TextDocument \<Rightarrow> thrown + bool" where
  "isOpenApiTextDocument doc =
     (if \<not> hasOpenApiExtension (doc_uri doc) then Inr False
      else case getText doc of Inl e \<Rightarrow> Inl e | Inr text \<Rightarrow> Inr (hasOpenApiMarker text))"

text \<open>Hosts for the scenarios: every file opens with the given text, or no file opens.\<close>

definition host_with_text :: "string \<Rightarrow> Uri \<Rightarrow> thrown + TextDocument" where
  "host_with_text text uri = Inr \<lparr>doc_uri = uri, getText = Inr text\<rparr>"

definition host_unreadable :: "Uri \<Rightarrow> thrown + TextDocument" where
  "host_unreadable uri = Inl (ThrownObject True (Some ''FileNotFound'') ''cannot open'')"

definition file_uri :: "string \<Rightarrow> Uri" where
  "file_uri p = \<lparr>fsPath = p, uri_path = p, uri_toString = ''file://'' @ p\<rparr>"


section \<open>The content reader (\<open>FileReader\<close>)\<close>

datatype FileReadErrorType = NotFound | PermissionDenied | TooLarge | Unknown

record FileReadError =
  error_type :: FileReadErrorType
  error_uri :: Uri
  error_message :: string
  originalError :: "thrown option"

record FileReadResult =
  success :: bool
  content :: "string option"
  error :: "FileReadError option"

definition getUserMessage :: "FileReadError \<Rightarrow> string" where
  "getUserMessage err =
     (case error_type err of
        NotFound \<Rightarrow> ''File not found: '' @ fsPath (error_uri err)
      | PermissionDenied \<Rightarrow> ''Permission denied: Cannot read file '' @ fsPath (error_uri err)
      | TooLarge \<Rightarrow> ''File too large: '' @ fsPath (error_uri err) @ '' exceeds the maximum size limit''
      | Unknown \<Rightarrow>
          ''Failed to read file: '' @ fsPath (error_uri err) @ ''. '' @
          (case originalError err of
             Some (ThrownObject _ _ m) \<Rightarrow> (if m = '''' then ''Unknown error'' else m)
           | _ \<Rightarrow> ''Unknown error''))"

definition MAX_FILE_SIZE :: nat where
  "MAX_FILE_SIZE = 10 * 1024 * 1024"

definition determineErrorType :: "thrown \<Rightarrow> FileReadErrorType" where
  "determineErrorType e =
     (case e of
        ThrownObject _ c _ \<Rightarrow>
          if c = Some ''FileNotFound'' \<or> c = Some ''ENOENT'' then NotFound
          else if c = Some ''NoPermissions'' \<or> c = Some ''EACCES'' \<or> c = Some ''EPERM''
            then PermissionDenied
          else Unknown
      | ThrownOther \<Rightarrow> Unknown)"

definition getErrorMessage :: "FileReadErrorType \<Rightarrow> Uri \<Rightarrow> string" where
  "getErrorMessage errorType uri =
     (case errorType of
        NotFound \<Rightarrow> ''File not found: '' @ fsPath uri
      | PermissionDenied \<Rightarrow> ''Permission denied: Cannot read file '' @ fsPath uri
      | TooLarge \<Rightarrow> ''File too large: '' @ fsPath uri
      | Unknown \<Rightarrow> ''Failed to read file: '' @ fsPath uri)"

text \<open>\<^verbatim>\<open>error instanceof Error ? error : undefined\<close>.\<close>

definition as_Error :: "thrown \<Rightarrow> thrown option" where
  "as_Error e = (case e of ThrownObject True _ _ \<Rightarrow> Some e | _ \<Rightarrow> None)"

definition read_failure :: "thrown \<Rightarrow> Uri \<Rightarrow> FileReadResult" where
  "read_failure e uri =
     (let errorType = determineErrorType e
      in \<lparr>success = False, content = None,
          error = Some \<lparr>error_type = errorType, error_uri = uri,
                        error_message = getErrorMessage errorType uri,
                        originalError = as_Error e\<rparr>\<rparr>)"

text \<open>
  \<open>readFile\<close>. The host's \<open>workspace.fs.readFile\<close> gives the raw bytes or throws, and
  \<open>Buffer.from(fileData).toString('utf8')\<close> is the parameter \<open>decode\<close>, which gives the text
  or throws; both throws are caught by the one \<open>try\<close>.
\<close>

definition readFile ::
  "(Uri \<Rightarrow> thrown + nat list) \<Rightarrow> (nat list \<Rightarrow> thrown + string) \<Rightarrow> Uri \<Rightarrow> FileReadResult" where
  "readFile fs_readFile decode uri =
     (case fs_readFile uri of
        Inl e \<Rightarrow> read_failure e uri
      | Inr fileData \<Rightarrow>
          if length fileData > MAX_FILE_SIZE
          then \<lparr>success = False, content = None,
                error = Some \<lparr>error_type = TooLarge, error_uri = uri,
                  error_message =
                    ''File size ('' @ decimal (length fileData) @
                    '' bytes) exceeds maximum allowed size ('' @ decimal MAX_FILE_SIZE @
                    '' bytes)'',
                  originalError = None\<rparr>\<rparr>
          else (case decode fileData of
                  Inl e \<Rightarrow> read_failure e uri
                | Inr text \<Rightarrow> \<lparr>success = True, content = Some text, error = None\<rparr>))"

definition readFromDocument :: "TextDocument \<Rightarrow> FileReadResult" where
  "readFromDocument doc =
     (case getText doc of
        Inr text \<Rightarrow> \<lparr>success = True, content = Some text, error = None\<rparr>
      | Inl e \<Rightarrow>
          \<lparr>success = False, content = None,
           error = Some \<lparr>error_type = Unknown, error_uri = doc_uri doc,
                         error_message = ''Failed to read document content'',
                         originalError = as_Error e\<rparr>\<rparr>)"

definition detectFileType :: "Uri \<Rightarrow> string" where
  "detectFileType uri =
     (let path = toLowerCase (fsPath uri)
      in if endsWith path ''.yaml'' \<or> endsWith path ''.yml'' then ''yaml''
         else if endsWith path ''.json'' then ''json''
         else ''unknown'')"

text \<open>
  For the scenario of an oversized file: a file of 11 MiB of zero bytes, a file system in
  which every URI holds the given bytes, and a decoder that always throws.
\<close>

definition eleven_MiB_file :: "nat list" where
  "eleven_MiB_file = replicate (11 * 1024 * 1024) 0"

definition fs_with_file :: "nat list \<Rightarrow> Uri \<Rightarrow> thrown + nat list" where
  "fs_with_file bytes uri = Inr bytes"

definition decode_throws :: "nat list \<Rightarrow> thrown + string" where
  "decode_throws bytes = Inl ThrownOther"


section \<open>The change watcher (\<open>FileWatcher\<close>)\<close>

text \<open>
  The callbacks of one \<open>watch\<close> call are modelled by what they let the host observe: every
  call is logged with the registration's \<open>cb_id\<close>, and a change or deletion callback
  either returns or throws; the error callback is taken to return. \<open>has_onDeleted\<close> and
  \<open>has_onError\<close> tell whether the optional callbacks were given.
\<close>

record registration =
  reg_uri :: string
  reg_path :: string
  cb_id :: nat
  has_onDeleted :: bool
  has_onError :: bool
  onChanged_throws :: bool
  onDeleted_throws :: bool

datatype call = OnChanged nat string | OnDeleted nat | OnError nat

text \<open>
  What the host holds for its clients: a listener of \<open>onDidChangeTextDocument\<close>, a file
  system watcher (named by the glob it watches), a listener of that watcher's
  \<open>onDidDelete\<close>, or a listener of an event of a webview panel (the panel's handle and
  the event's name).
\<close>

datatype subscription =
    ChangeSub registration
  | FsWatcherSub string
  | DeleteSub nat registration
  | PanelListener nat string

text \<open>
  A pending \<open>setTimeout\<close>: when it is due, and the closure it runs, which holds the event's
  live document and the callbacks.
\<close>

record timer =
  deadline :: nat
  timer_doc :: string
  timer_reg :: registration

record FileWatcher =
  disposables :: "nat list"
  debounceTimer :: "timer option"
  debounceDelay :: nat

text \<open>
  The host as the watcher sees it: the active subscriptions in the order they were made,
  the next free handle, the current text of every document, the time in milliseconds,
  and the log of callback calls.
\<close>

record workspace =
  subscriptions :: "(nat \<times> subscription) list"
  next_handle :: nat
  documents :: "string \<Rightarrow> string"
  clock :: nat
  calls :: "call list"

definition new_FileWatcher :: "nat option \<Rightarrow> FileWatcher" where
  "new_FileWatcher delay =
     \<lparr>disposables = [], debounceTimer = None,
      debounceDelay = (case delay of None \<Rightarrow> 500 | Some d \<Rightarrow> d)\<rparr>"

definition new_workspace :: workspace where
  "new_workspace =
     \<lparr>subscriptions = [], next_handle = 0, documents = (\<lambda>u. ''''), clock = 0, calls = []\<rparr>"

definition subscribe :: "subscription \<Rightarrow> workspace \<Rightarrow> nat \<times> workspace" where
  "subscribe sub ws =
     (next_handle ws,
      ws\<lparr>subscriptions := subscriptions ws @ [(next_handle ws, sub)],
         next_handle := Suc (next_handle ws)\<rparr>)"

definition unsubscribe :: "nat \<Rightarrow> workspace \<Rightarrow> workspace" where
  "unsubscribe h ws = ws\<lparr>subscriptions := filter (\<lambda>(k, sub). k \<noteq> h) (subscriptions ws)\<rparr>"

text \<open>\<^verbatim>\<open>if (onError) { onError(...) }\<close>.\<close>

definition report_error :: "registration \<Rightarrow> workspace \<Rightarrow> workspace" where
  "report_error reg ws =
     (if has_onError reg then ws\<lparr>calls := calls ws @ [OnError (cb_id reg)]\<rparr> else ws)"

text \<open>\<^verbatim>\<open>uri.path.split('/').pop() || '*'\<close>: the last segment of the path, or \<open>*\<close>.\<close>

definition last_segment :: "string \<Rightarrow> string" where
  "last_segment p = rev (takeWhile (\<lambda>c. c \<noteq> CHR ''/'') (rev p))"

definition watch_glob :: "string \<Rightarrow> string" where
  "watch_glob p = (if last_segment p = '''' then ''*'' else last_segment p)"

text \<open>
  What \<open>watch\<close> returns: \<^verbatim>\<open>new vscode.Disposable(() => { this.dispose(); })\<close>. The closure
  holds the watcher and nothing of the registration. A host subscription is a disposable
  too.
\<close>

datatype disposable = Subscription nat | DisposeWatcher

text \<open>
  \<open>watch\<close>. \<open>fsw_throws\<close> tells whether the host's \<open>createFileSystemWatcher\<close> throws; the
  throw is caught and reported to \<open>onError\<close>.
\<close>

definition watch ::
  "bool \<Rightarrow> registration \<Rightarrow> FileWatcher \<times> workspace \<Rightarrow> disposable \<times> FileWatcher \<times> workspace" where
  "watch fsw_throws reg s =
     (let (w, ws) = s;
          (changeDisposable, ws1) = subscribe (ChangeSub reg) ws;
          w1 = w\<lparr>disposables := disposables w @ [changeDisposable]\<rparr>
      in if fsw_throws then (DisposeWatcher, w1, report_error reg ws1)
         else
           (let (fileWatcher, ws2) = subscribe (FsWatcherSub (watch_glob (reg_path reg))) ws1;
                (deleteDisposable, ws3) = subscribe (DeleteSub fileWatcher reg) ws2;
                w3 = w1\<lparr>disposables := disposables w1 @ [deleteDisposable, fileWatcher]\<rparr>
            in (DisposeWatcher, w3, ws3)))"

text \<open>\<open>debounceChange\<close>: the pending timer, if any, is cleared and a new one is set.\<close>

definition debounceChange ::
  "string \<Rightarrow> registration \<Rightarrow> FileWatcher \<times> workspace \<Rightarrow> FileWatcher \<times> workspace" where
  "debounceChange doc reg s =
     (let (w, ws) = s
      in (w\<lparr>debounceTimer :=
             Some \<lparr>deadline = clock ws + debounceDelay w, timer_doc = doc, timer_reg = reg\<rparr>\<rparr>,
          ws))"

text \<open>
  \<open>dispose\<close>: the pending timer is cleared, every disposable of the instance is disposed,
  and the list is emptied.
\<close>

definition dispose :: "FileWatcher \<times> workspace \<Rightarrow> FileWatcher \<times> workspace" where
  "dispose s =
     (let (w, ws) = s
      in (w\<lparr>debounceTimer := None, disposables := []\<rparr>, fold unsubscribe (disposables w) ws))"

definition dispose_disposable ::
  "disposable \<Rightarrow> FileWatcher \<times> workspace \<Rightarrow> FileWatcher \<times> workspace" where
  "dispose_disposable d s =
     (case d of
        Subscription h \<Rightarrow> (fst s, unsubscribe h (snd s))
      | DisposeWatcher \<Rightarrow> dispose s)"

subsection \<open>Events of the host\<close>

text \<open>
  The system is one \<open>FileWatcher\<close> and its host. A change of a document sets its text and
  then calls every listener of \<open>onDidChangeTextDocument\<close> in order; a listener whose URI is
  the document's debounces its callback.
\<close>

fun dispatch_change ::
  "string \<Rightarrow> (nat \<times> subscription) list \<Rightarrow> FileWatcher \<times> workspace \<Rightarrow> FileWatcher \<times> workspace" where
  "dispatch_change doc [] s = s"
| "dispatch_change doc ((h, ChangeSub reg) # subs) s =
     dispatch_change doc subs (if doc = reg_uri reg then debounceChange doc reg s else s)"
| "dispatch_change doc ((h, FsWatcherSub g) # subs) s = dispatch_change doc subs s"
| "dispatch_change doc ((h, DeleteSub f reg) # subs) s = dispatch_change doc subs s"
| "dispatch_change doc ((h, PanelListener p ev) # subs) s = dispatch_change doc subs s"

definition fire_change ::
  "string \<Rightarrow> string \<Rightarrow> FileWatcher \<times> workspace \<Rightarrow> FileWatcher \<times> workspace" where
  "fire_change doc text s =
     (let (w, ws) = s
      in dispatch_change doc (subscriptions ws) (w, ws\<lparr>documents := (documents ws)(doc := text)\<rparr>))"

text \<open>
  The closure of a due timer: \<open>onChanged\<close> is called with the text the document has now,
  and a throw of the callback goes to \<open>onError\<close>.
\<close>

definition fire_timer :: "timer \<Rightarrow> workspace \<Rightarrow> workspace" where
  "fire_timer t ws =
     (let reg = timer_reg t;
          ws1 = ws\<lparr>calls := calls ws @ [OnChanged (cb_id reg) (documents ws (timer_doc t))]\<rparr>
      in if onChanged_throws reg then report_error reg ws1 else ws1)"

text \<open>Time passes by \<open>d\<close> milliseconds; a timer that falls due in between runs.\<close>

definition advance :: "nat \<Rightarrow> FileWatcher \<times> workspace \<Rightarrow> FileWatcher \<times> workspace" where
  "advance d s =
     (let (w, ws) = s
      in case debounceTimer w of
           None \<Rightarrow> (w, ws\<lparr>clock := clock ws + d\<rparr>)
         | Some t \<Rightarrow>
             if deadline t \<le> clock ws + d
             then (w\<lparr>debounceTimer := None\<rparr>, (fire_timer t ws)\<lparr>clock := clock ws + d\<rparr>)
             else (w, ws\<lparr>clock := clock ws + d\<rparr>))"

text \<open>
  A file is deleted: every listener of a file system watcher that is still subscribed is
  called, and one whose URI is the deleted file's calls \<open>onDeleted\<close> at once.
\<close>

fun dispatch_delete :: "string \<Rightarrow> (nat \<times> subscription) list \<Rightarrow> workspace \<Rightarrow> workspace" where
  "dispatch_delete deleted [] ws = ws"
| "dispatch_delete deleted ((h, DeleteSub f reg) # subs) ws =
     dispatch_delete deleted subs
       (if f \<in> fst ` set (subscriptions ws) \<and> deleted = reg_uri reg \<and> has_onDeleted reg
        then (let ws1 = ws\<lparr>calls := calls ws @ [OnDeleted (cb_id reg)]\<rparr>
              in if onDeleted_throws reg then report_error reg ws1 else ws1)
        else ws)"
| "dispatch_delete deleted ((h, ChangeSub reg) # subs) ws = dispatch_delete deleted subs ws"
| "dispatch_delete deleted ((h, FsWatcherSub g) # subs) ws = dispatch_delete deleted subs ws"
| "dispatch_delete deleted ((h, PanelListener p ev) # subs) ws = dispatch_delete deleted subs ws"

definition fire_delete :: "string \<Rightarrow> FileWatcher \<times> workspace \<Rightarrow> FileWatcher \<times> workspace" where
  "fire_delete deleted s = (fst s, dispatch_delete deleted (subscriptions (snd s)) (snd s))"

text \<open>
  A burst of edits of one document: each edit comes \<open>gap\<close> milliseconds after the event
  before it and leaves the document with the given text.
\<close>

fun run_edits ::
  "string \<Rightarrow> (nat \<times> string) list \<Rightarrow> FileWatcher \<times> workspace \<Rightarrow> FileWatcher \<times> workspace" where
  "run_edits doc [] s = s"
| "run_edits doc ((gap, text) # es) s = run_edits doc es (fire_change doc text (advance gap s))"

text \<open>The registrations that listen for changes of a document, in the order of the listeners.\<close>

fun change_listeners :: "string \<Rightarrow> (nat \<times> subscription) list \<Rightarrow> registration list" where
  "change_listeners doc [] = []"
| "change_listeners doc ((h, ChangeSub reg) # subs) =
     (if doc = reg_uri reg then reg # change_listeners doc subs else change_listeners doc subs)"
| "change_listeners doc ((h, FsWatcherSub g) # subs) = change_listeners doc subs"
| "change_listeners doc ((h, DeleteSub f reg) # subs) = change_listeners doc subs"
| "change_listeners doc ((h, PanelListener p ev) # subs) = change_listeners doc subs"

text \<open>What the closure of a timer appends to the log of calls when it runs.\<close>

definition delivery :: "registration \<Rightarrow> string \<Rightarrow> call list" where
  "delivery reg text =
     OnChanged (cb_id reg) text #
     (if onChanged_throws reg \<and> has_onError reg then [OnError (cb_id reg)] else [])"

text \<open>Scenarios: callbacks that return, and a fresh watcher with the default delay.\<close>

definition plain_registration :: "string \<Rightarrow> nat \<Rightarrow> registration" where
  "plain_registration p k =
     \<lparr>reg_uri = uri_toString (file_uri p), reg_path = uri_path (file_uri p), cb_id = k,
      has_onDeleted = True, has_onError = True,
      onChanged_throws = False, onDeleted_throws = False\<rparr>"

definition fresh_watcher :: "FileWatcher \<times> workspace" where
  "fresh_watcher = (new_FileWatcher None, new_workspace)"

definition watching_one :: "FileWatcher \<times> workspace" where
  "watching_one = snd (watch False (plain_registration ''/a.yaml'' 1) fresh_watcher)"

definition watching_two :: "FileWatcher \<times> workspace" where
  "watching_two = snd (watch False (plain_registration ''/b.yaml'' 2) watching_one)"

text \<open>
  An open debounce window, as the proofs use it: since the state \<open>s0\<close> nothing was
  delivered and no subscription changed, the document has the text \<open>text\<close>, and the timer
  set by the last edit is pending for the last listener of the document.
\<close>

definition window_open ::
  "string \<Rightarrow> string \<Rightarrow> FileWatcher \<times> workspace \<Rightarrow> FileWatcher \<times> workspace \<Rightarrow> bool" where
  "window_open doc text s0 s =
     (debounceDelay (fst s) = debounceDelay (fst s0) \<and>
      subscriptions (snd s) = subscriptions (snd s0) \<and>
      calls (snd s) = calls (snd s0) \<and>
      documents (snd s) doc = text \<and>
      debounceTimer (fst s) =
        Some \<lparr>deadline = clock (snd s) + debounceDelay (fst s0), timer_doc = doc,
              timer_reg = last (change_listeners doc (subscriptions (snd s0)))\<rparr>)"

text \<open>
  The scenario of two registrations on one instance, with an edit of the second document
  pending, and the handle that the first \<open>watch\<close> call returned.
\<close>

definition first_handle :: disposable where
  "first_handle = fst (watch False (plain_registration ''/a.yaml'' 1) fresh_watcher)"

definition two_with_pending_edit :: "FileWatcher \<times> workspace" where
  "two_with_pending_edit = fire_change ''file:///b.yaml'' ''new'' watching_two"


section \<open>The preview coordinator (\<open>PreviewManager\<close>)\<close>

subsection \<open>Columns\<close>

text \<open>
  A \<open>vscode.ViewColumn\<close> is a number: \<open>Active\<close> is -1, \<open>Beside\<close> is -2, \<open>One\<close> to \<open>Nine\<close>
  are 1 to 9. An optional column is \<open>None\<close> when it is \<open>undefined\<close>. The operator \<open>||\<close>
  takes its right operand when the left one is \<open>undefined\<close> or 0.
\<close>

definition ViewColumn_One :: int where "ViewColumn_One = 1"

definition ViewColumn_Two :: int where "ViewColumn_Two = 2"

definition ViewColumn_Beside :: int where "ViewColumn_Beside = - 2"

definition truthy :: "int option \<Rightarrow> bool" where
  "truthy c = (c \<noteq> None \<and> c \<noteq> Some 0)"

definition or_else :: "int option \<Rightarrow> int \<Rightarrow> int" where
  "or_else c d = (case c of None \<Rightarrow> d | Some x \<Rightarrow> if x = 0 then d else x)"

subsection \<open>The host\<close>

text \<open>
  What \<open>getHtmlContent\<close> is given: the content URL and the optional error message. The
  markup itself, with its random nonce, is not modelled.
\<close>

record html_doc =
  html_contentUrl :: string
  html_errorMessage :: "string option"

datatype message = UpdateMessage string nat | ErrorMessage string

datatype notification = ShowError string | ShowWarning string

text \<open>
  A webview panel as the host holds it: the title and column it was created with, the
  markup last assigned to its webview, the messages posted to it and the columns it was
  revealed in.
\<close>

record WebviewPanel =
  wp_title :: string
  wp_column :: int
  wp_html :: "html_doc option"
  wp_posted :: "message list"
  wp_revealed :: "int list"

record host_state =
  panels :: "nat \<rightharpoonup> WebviewPanel"
  next_panel :: nat
  host_ws :: workspace
  notifications :: "notification list"

definition new_host :: host_state where
  "new_host = \<lparr>panels = Map.empty, next_panel = 0, host_ws = new_workspace, notifications = []\<rparr>"

text \<open>
  How the host behaves during one call of the coordinator: which of its operations throw
  (and what), what a panel's \<open>viewColumn\<close> reads as (\<open>None\<close> when the getter throws,
  \<open>Some None\<close> when it is \<open>undefined\<close>), the active text editor (\<open>None\<close> when there is none,
  else its optional column), the configured \<open>previewColumn\<close>, and \<open>Date.now()\<close>.
\<close>

record host_env =
  createWebviewPanel_throws :: bool
  reveal_throws :: bool
  html_set_throws :: bool
  createFileSystemWatcher_throws :: bool
  host_error :: thrown
  panel_viewColumn :: "nat \<Rightarrow> int option option"
  activeTextEditor :: "int option option"
  previewColumn :: string
  date_now :: nat

subsection \<open>The coordinator's state\<close>

record PreviewPanel =
  panel :: nat
  document :: TextDocument
  pv_disposables :: "disposable list"
  options :: "(string \<times> string) list"
  fileWatcher :: FileWatcher
  lastViewColumn :: int

record PreviewManager =
  previews :: "string \<rightharpoonup> PreviewPanel"
  lastColumnPositions :: "string \<rightharpoonup> int"
  httpServer :: HttpServer

definition new_PreviewManager :: "nat option \<Rightarrow> PreviewManager" where
  "new_PreviewManager bound =
     \<lparr>previews = Map.empty, lastColumnPositions = Map.empty,
      httpServer = snd (start bound new_HttpServer)\<rparr>"

definition getPreviewColumn :: "host_env \<Rightarrow> int" where
  "getPreviewColumn env =
     (case activeTextEditor env of
        None \<Rightarrow> ViewColumn_Two
      | Some editorColumn \<Rightarrow>
          if previewColumn env = ''active'' then or_else editorColumn ViewColumn_One
          else ViewColumn_Beside)"

definition getDocumentTitle :: "TextDocument \<Rightarrow> string" where
  "getDocumentTitle doc =
     (let fileName = last_segment (uri_path (doc_uri doc))
      in if fileName = '''' then ''OpenAPI'' else fileName)"

text \<open>\<^verbatim>\<open>error instanceof Error ? error.message : String(error)\<close>.\<close>

definition describe_thrown :: "thrown \<Rightarrow> string" where
  "describe_thrown e =
     (case e of
        ThrownObject True c m \<Rightarrow> m
      | ThrownObject False c m \<Rightarrow> ''[object Object]''
      | ThrownOther \<Rightarrow> ''undefined'')"

definition set_html :: "nat \<Rightarrow> html_doc \<Rightarrow> host_state \<Rightarrow> host_state" where
  "set_html p h hs =
     (case panels hs p of
        None \<Rightarrow> hs
      | Some wp \<Rightarrow> hs\<lparr>panels := (panels hs)(p \<mapsto> wp\<lparr>wp_html := Some h\<rparr>)\<rparr>)"

definition post_message :: "nat \<Rightarrow> message \<Rightarrow> host_state \<Rightarrow> host_state" where
  "post_message p m hs =
     (case panels hs p of
        None \<Rightarrow> hs
      | Some wp \<Rightarrow> hs\<lparr>panels := (panels hs)(p \<mapsto> wp\<lparr>wp_posted := wp_posted wp @ [m]\<rparr>)\<rparr>)"

definition reveal :: "nat \<Rightarrow> int \<Rightarrow> host_state \<Rightarrow> host_state" where
  "reveal p c hs =
     (case panels hs p of
        None \<Rightarrow> hs
      | Some wp \<Rightarrow> hs\<lparr>panels := (panels hs)(p \<mapsto> wp\<lparr>wp_revealed := wp_revealed wp @ [c]\<rparr>)\<rparr>)"

definition notify :: "notification \<Rightarrow> host_state \<Rightarrow> host_state" where
  "notify n hs = hs\<lparr>notifications := notifications hs @ [n]\<rparr>"

text \<open>
  \<open>disposePreview\<close>. A throw of the \<open>viewColumn\<close> getter goes to the outer \<open>catch\<close>, which
  only deletes the session. Disposing the watcher and the disposables does not throw in
  this model, so their guards are not visible.
\<close>

definition disposePreview ::
  "host_env \<Rightarrow> string \<Rightarrow> PreviewManager \<times> host_state \<Rightarrow> PreviewManager \<times> host_state" where
  "disposePreview env documentUri s =
     (let (pm, hs) = s
      in case previews pm documentUri of
           None \<Rightarrow> (pm, hs)
         | Some preview \<Rightarrow>
             (case panel_viewColumn env (panel preview) of
                None \<Rightarrow> (pm\<lparr>previews := (previews pm)(documentUri := None)\<rparr>, hs)
              | Some currentColumn \<Rightarrow>
                  (let pm1 = (case currentColumn of
                                None \<Rightarrow> pm
                              | Some c \<Rightarrow>
                                  pm\<lparr>lastColumnPositions :=
                                       (lastColumnPositions pm)(documentUri \<mapsto> c)\<rparr>);
                       pm2 = pm1\<lparr>httpServer := removeContent documentUri (httpServer pm1)\<rparr>;
                       s1 = dispose (fileWatcher preview, host_ws hs);
                       s2 = fold dispose_disposable (pv_disposables preview) s1
                   in (pm2\<lparr>previews := (previews pm2)(documentUri := None)\<rparr>,
                       hs\<lparr>host_ws := snd s2\<rparr>))))"

text \<open>
  The handler of \<open>onDidChangeViewState\<close> installed by \<open>createPreview\<close>, for the column the
  event reports.
\<close>

definition onDidChangeViewState ::
  "string \<Rightarrow> int option \<Rightarrow> PreviewManager \<Rightarrow> PreviewManager" where
  "onDidChangeViewState documentUri reported pm =
     (case reported of
        None \<Rightarrow> pm
      | Some c \<Rightarrow>
          (case previews pm documentUri of
             None \<Rightarrow> pm
           | Some preview \<Rightarrow>
               pm\<lparr>previews := (previews pm)(documentUri \<mapsto> preview\<lparr>lastViewColumn := c\<rparr>),
                  lastColumnPositions := (lastColumnPositions pm)(documentUri \<mapsto> c)\<rparr>))"

text \<open>The \<open>catch\<close> of \<open>createPreview\<close>: notify, dispose what was stored, rethrow.\<close>

definition createPreview_failed ::
  "host_env \<Rightarrow> string \<Rightarrow> PreviewManager \<times> host_state \<Rightarrow>
   (thrown + unit) \<times> PreviewManager \<times> host_state" where
  "createPreview_failed env documentUri s =
     (let (pm, hs) = s;
          hs1 = notify (ShowError (''Failed to create preview: '' @ describe_thrown (host_error env))) hs
      in (Inl (host_error env), disposePreview env documentUri (pm, hs1)))"

text \<open>
  \<open>createPreview\<close>. The watcher's callbacks are the closures over this panel; their
  registration is tagged with the panel's handle. When the file system watcher cannot be
  created, \<open>watch\<close> calls the error callback, which posts an error message to the panel.
\<close>

definition createPreview ::
  "host_env \<Rightarrow> TextDocument \<Rightarrow> int \<Rightarrow> PreviewManager \<times> host_state \<Rightarrow>
   (thrown + unit) \<times> PreviewManager \<times> host_state" where
  "createPreview env doc viewColumn s =
     (let (pm, hs) = s; documentUri = uri_toString (doc_uri doc)
      in if createWebviewPanel_throws env then createPreview_failed env documentUri (pm, hs)
         else
           (let p = next_panel hs;
                hs1 = hs\<lparr>panels := (panels hs)(p \<mapsto>
                          \<lparr>wp_title = ''Preview: '' @ getDocumentTitle doc, wp_column = viewColumn,
                           wp_html = None, wp_posted = [], wp_revealed = []\<rparr>),
                        next_panel := Suc p\<rparr>;
                (d1, ws1) = subscribe (PanelListener p ''onDidDispose'') (host_ws hs1);
                (d2, ws2) = subscribe (PanelListener p ''onDidChangeViewState'') ws1;
                reg = \<lparr>reg_uri = documentUri, reg_path = uri_path (doc_uri doc), cb_id = p,
                       has_onDeleted = True, has_onError = True,
                       onChanged_throws = html_set_throws env, onDeleted_throws = False\<rparr>;
                (watcherDisposable, w, ws3) =
                   watch (createFileSystemWatcher_throws env) reg (new_FileWatcher (Some 500), ws2);
                (d3, ws4) = subscribe (PanelListener p ''onDidReceiveMessage'') ws3;
                hs2 = hs1\<lparr>host_ws := ws4\<rparr>;
                hs3 = (if createFileSystemWatcher_throws env
                       then post_message p
                              (ErrorMessage (''Error monitoring file changes: '' @
                                 describe_thrown (host_error env))) hs2
                       else hs2);
                preview = \<lparr>panel = p, document = doc,
                           pv_disposables = [Subscription d1, Subscription d2, watcherDisposable,
                                             Subscription d3],
                           options = [], fileWatcher = w, lastViewColumn = viewColumn\<rparr>;
                pm1 = pm\<lparr>previews := (previews pm)(documentUri \<mapsto> preview),
                         lastColumnPositions := (lastColumnPositions pm)(documentUri \<mapsto> viewColumn)\<rparr>;
                readResult = readFromDocument doc
            in if \<not> success readResult \<or> content readResult = None \<or> content readResult = Some ''''
               then
                 (let errorMessage =
                        (case error readResult of
                           None \<Rightarrow> ''Failed to read file content''
                         | Some e \<Rightarrow>
                             if getUserMessage e = '''' then ''Failed to read file content''
                             else getUserMessage e)
                  in if html_set_throws env then createPreview_failed env documentUri (pm1, hs3)
                     else (Inr (),
                           pm1,
                           notify (ShowError errorMessage)
                             (set_html p \<lparr>html_contentUrl = ''about:blank'',
                                         html_errorMessage = Some errorMessage\<rparr> hs3)))
               else
                 (let (contentUrl, srv) =
                        registerContent documentUri (the (content readResult)) (httpServer pm1);
                      pm2 = pm1\<lparr>httpServer := srv\<rparr>
                  in if html_set_throws env then createPreview_failed env documentUri (pm2, hs3)
                     else (Inr (),
                           pm2,
                           set_html p \<lparr>html_contentUrl = contentUrl, html_errorMessage = None\<rparr> hs3))))"

text \<open>
  \<open>createOrShowPreview\<close>. The outer \<open>catch\<close> logs and rethrows, so a throw of
  \<open>createPreview\<close> is the outcome.
\<close>

definition createOrShowPreview ::
  "host_env \<Rightarrow> TextDocument \<Rightarrow> int option \<Rightarrow> PreviewManager \<times> host_state \<Rightarrow>
   (thrown + unit) \<times> PreviewManager \<times> host_state" where
  "createOrShowPreview env doc viewColumn s =
     (let (pm, hs) = s; documentUri = uri_toString (doc_uri doc)
      in case previews pm documentUri of
           Some existingPreview \<Rightarrow>
             if reveal_throws env
             then (let s1 = disposePreview env documentUri (pm, hs);
                       columnToUse =
                         or_else viewColumn
                           (or_else (lastColumnPositions (fst s1) documentUri) (getPreviewColumn env))
                   in createPreview env doc columnToUse s1)
             else (Inr (),
                   pm,
                   reveal (panel existingPreview)
                     (or_else viewColumn (lastViewColumn existingPreview)) hs)
         | None \<Rightarrow>
             createPreview env doc
               (or_else viewColumn
                  (or_else (lastColumnPositions pm documentUri) (getPreviewColumn env)))
               (pm, hs))"

text \<open>\<open>updatePreview\<close>: the fallback path that posts the document's text to the panel.\<close>

definition updatePreview ::
  "host_env \<Rightarrow> TextDocument \<Rightarrow> PreviewManager \<times> host_state \<Rightarrow> PreviewManager \<times> host_state" where
  "updatePreview env doc s =
     (let (pm, hs) = s; documentUri = uri_toString (doc_uri doc)
      in case previews pm documentUri of
           None \<Rightarrow> (pm, hs)
         | Some preview \<Rightarrow>
             (let readResult = readFromDocument doc
              in if \<not> success readResult \<or> content readResult = None \<or> content readResult = Some ''''
                 then
                   (let errorMessage =
                          (case error readResult of
                             None \<Rightarrow> ''Failed to read file content''
                           | Some e \<Rightarrow>
                               if getUserMessage e = '''' then ''Failed to read file content''
                               else getUserMessage e)
                    in (pm, post_message (panel preview) (ErrorMessage errorMessage) hs))
                 else
                   (pm,
                    post_message (panel preview)
                      (UpdateMessage (the (content readResult)) (date_now env)) hs)))"

text \<open>
  The change callback that \<open>createPreview\<close> gives to the watcher, for the panel \<open>p\<close>: the
  new text goes to the content server and the markup is generated again.
\<close>

definition preview_onChanged ::
  "string \<Rightarrow> nat \<Rightarrow> string \<Rightarrow> PreviewManager \<times> host_state \<Rightarrow> PreviewManager \<times> host_state" where
  "preview_onChanged documentUri p text s =
     (let (pm, hs) = s;
          (contentUrl, srv) = registerContent documentUri text (updateContent documentUri text (httpServer pm))
      in (pm\<lparr>httpServer := srv\<rparr>,
          set_html p \<lparr>html_contentUrl = contentUrl, html_errorMessage = None\<rparr> hs))"

subsection \<open>Invariant and scenarios\<close>

text \<open>
  Column Memory follows the sessions: for every session, the remembered column of its
  document is the session's last column.
\<close>

definition columns_tracked :: "PreviewManager \<Rightarrow> bool" where
  "columns_tracked pm =
     (\<forall>u preview. previews pm u = Some preview \<longrightarrow>
          lastColumnPositions pm u = Some (lastViewColumn preview))"

text \<open>A host where nothing throws, with an editor active in column one.\<close>

definition calm_env :: host_env where
  "calm_env =
     \<lparr>createWebviewPanel_throws = False, reveal_throws = False, html_set_throws = False,
      createFileSystemWatcher_throws = False, host_error = ThrownOther,
      panel_viewColumn = (\<lambda>p. Some None), activeTextEditor = Some (Some 1),
      previewColumn = ''beside'', date_now = 0\<rparr>"

definition open_document :: "string \<Rightarrow> string \<Rightarrow> TextDocument" where
  "open_document p text = \<lparr>doc_uri = file_uri p, getText = Inr text\<rparr>"

definition fresh_manager :: "PreviewManager \<times> host_state" where
  "fresh_manager = (new_PreviewManager (Some 3000), new_host)"

text \<open>What the proofs observe of a panel of the host and of a session of the coordinator.\<close>

definition panel_column :: "host_state \<Rightarrow> nat \<Rightarrow> int option" where
  "panel_column hs p = map_option wp_column (panels hs p)"

definition panel_html :: "host_state \<Rightarrow> nat \<Rightarrow> html_doc option" where
  "panel_html hs p = (case panels hs p of None \<Rightarrow> None | Some wp \<Rightarrow> wp_html wp)"

definition panel_posted :: "host_state \<Rightarrow> nat \<Rightarrow> message list" where
  "panel_posted hs p = (case panels hs p of None \<Rightarrow> [] | Some wp \<Rightarrow> wp_posted wp)"

definition panel_revealed :: "host_state \<Rightarrow> nat \<Rightarrow> int list" where
  "panel_revealed hs p = (case panels hs p of None \<Rightarrow> [] | Some wp \<Rightarrow> wp_revealed wp)"

definition session_column :: "PreviewManager \<Rightarrow> string \<Rightarrow> int option" where
  "session_column pm u = map_option lastViewColumn (previews pm u)"

definition session_panel :: "PreviewManager \<Rightarrow> string \<Rightarrow> nat option" where
  "session_panel pm u = map_option panel (previews pm u)"

text \<open>Two calls of \<open>createOrShowPreview\<close> for one document, one right after the other.\<close>

definition show_twice ::
  "host_env \<Rightarrow> host_env \<Rightarrow> TextDocument \<Rightarrow> int option \<Rightarrow> int option \<Rightarrow>
   PreviewManager \<times> host_state \<Rightarrow> (thrown + unit) \<times> PreviewManager \<times> host_state" where
  "show_twice env1 env2 doc vc1 vc2 s =
     createOrShowPreview env2 doc vc2 (snd (createOrShowPreview env1 doc vc1 s))"






text \<open>A document of 11 MiB, above the ceiling of \<open>readFile\<close>, and an empty document.\<close>

definition eleven_MiB_text :: string where
  "eleven_MiB_text = replicate (11 * 1024 * 1024) (CHR ''a'')"

definition big_document :: TextDocument where
  "big_document = open_document ''/big.yaml'' eleven_MiB_text"

definition empty_document :: TextDocument where
  "empty_document = open_document ''/empty.yaml'' ''''"

text \<open>
  The states the coordinator can reach from its construction: by its public operations and
  by the handlers and callbacks it installs (the panel was closed, the panel's view state
  changed, the watched file changed).
\<close>

inductive reachable :: "PreviewManager \<times> host_state \<Rightarrow> bool" where
  constructed: "reachable (new_PreviewManager bound, new_host)"
| shown: "reachable s \<Longrightarrow> reachable (snd (createOrShowPreview env doc vc s))"
| updated: "reachable s \<Longrightarrow> reachable (updatePreview env doc s)"
| closed: "reachable s \<Longrightarrow> reachable (disposePreview env u s)"
| moved: "reachable (pm, hs) \<Longrightarrow> reachable (onDidChangeViewState u reported pm, hs)"
| changed: "reachable s \<Longrightarrow> reachable (preview_onChanged u p text s)"

section \<open>Properties of the local content server\<close>

subsection \<open>The document id\<close>

lemma is_alnum_b64_char: "k < 62 \<Longrightarrow> is_alnum (b64_char k)"
  by (auto simp: is_alnum_def b64_char_def Let_def)

lemma slash_not_alnum: "is_alnum c \<Longrightarrow> c \<noteq> CHR ''/''"
  by (auto simp: is_alnum_def Let_def)

lemma docId_alnum: "c \<in> set (docId u) \<Longrightarrow> is_alnum c"
  unfolding docId_def by (auto dest: in_set_takeD)

lemma length_docId: "length (docId u) \<le> 32"
  by (simp add: docId_def)

lemma to_base64_head: "\<exists>rest. to_base64 (b # bs) = b64_char (b div 4) # rest"
  by (cases "(b # bs)" rule: to_base64.cases) auto

lemma utf8_unit_head: "\<exists>b bs. utf8_unit c = b # bs \<and> b < 248"
proof -
  have "(of_char c :: nat) < 256" by simp
  then have "(of_char c :: nat) div 64 < 4" by (simp add: less_mult_imp_div_less)
  then show ?thesis by (auto simp: utf8_unit_def Let_def)
qed

lemma docId_nonempty:
  assumes "u \<noteq> ''''"
  shows "docId u \<noteq> ''''"
proof -
  from assms obtain c cs where u: "u = c # cs" by (cases u) auto
  obtain b bs where b: "utf8_unit c = b # bs" "b < 248" using utf8_unit_head by blast
  have "buffer_from u = b # (bs @ buffer_from cs)" by (simp add: u buffer_from_def b)
  then obtain rest where r: "to_base64 (buffer_from u) = b64_char (b div 4) # rest"
    using to_base64_head by metis
  have "b div 4 < 62" using b(2) by simp
  then have "is_alnum (b64_char (b div 4))" by (rule is_alnum_b64_char)
  then show ?thesis by (simp add: docId_def r)
qed

subsection \<open>Serving a registered document\<close>

lemma listening_contentMap_update [simp]: "listening (srv\<lparr>contentMap := m\<rparr>) = listening srv"
  by (simp add: listening_def)

lemma match_doc_path_id:
  assumes "d \<noteq> ''''" "\<forall>c\<in>set d. is_alnum c"
  shows "match_doc_path (Some (''/doc/'' @ d)) = Some d"
proof -
  have "takeWhile (\<lambda>c. c \<noteq> CHR ''/'') d = d"
    using assms(2) by (auto dest: slash_not_alnum)
  then show ?thesis
    using assms(1) by (simp add: match_doc_path_def Let_def del: takeWhile_eq_all_conv)
qed

lemma http_get_doc:
  assumes "listening srv"
  shows "http_get srv (getServerUrl srv @ ''/doc/'' @ d) =
         Some (handle_request srv ''GET'' (Some (''/doc/'' @ d)))"
  using assms by (simp add: http_get_def Let_def)

lemma handle_request_hit:
  assumes "d \<noteq> ''''" "\<forall>c\<in>set d. is_alnum c" "contentMap srv d = Some text" "text \<noteq> ''''"
  shows "status (handle_request srv ''GET'' (Some (''/doc/'' @ d))) = 200 \<and>
         body (handle_request srv ''GET'' (Some (''/doc/'' @ d))) = text"
  unfolding handle_request_def match_doc_path_id [OF assms(1,2)] using assms(3,4) by simp

lemma get_stored_document:
  assumes "listening srv" "documentUri \<noteq> ''''" "text \<noteq> ''''"
    and "contentMap srv (docId documentUri) = Some text"
  shows "map_option status (http_get srv (getServerUrl srv @ ''/doc/'' @ docId documentUri)) = Some 200 \<and>
         map_option body (http_get srv (getServerUrl srv @ ''/doc/'' @ docId documentUri)) = Some text"
proof -
  have d: "docId documentUri \<noteq> ''''" "\<forall>c\<in>set (docId documentUri). is_alnum c"
    using assms(2) by (auto simp: docId_nonempty docId_alnum)
  show ?thesis
    unfolding http_get_doc [OF assms(1)]
    using handle_request_hit [OF d assms(4) assms(3)] by simp
qed

lemma handle_request_empty_content:
  assumes "d \<noteq> ''''" "\<forall>c\<in>set d. is_alnum c" "contentMap srv d = Some ''''"
  shows "status (handle_request srv ''GET'' (Some (''/doc/'' @ d))) = 404"
  unfolding handle_request_def match_doc_path_id [OF assms(1,2)] using assms(3) by simp

lemma register_then_get_unfold:
  "register_then_get documentUri text srv =
     http_get (srv\<lparr>contentMap := (contentMap srv)(docId documentUri \<mapsto> text)\<rparr>)
       (getServerUrl (srv\<lparr>contentMap := (contentMap srv)(docId documentUri \<mapsto> text)\<rparr>)
          @ ''/doc/'' @ docId documentUri)"
  by (simp add: register_then_get_def registerContent_def Let_def)

lemma server_started_server: "listening started_server"
  by (simp add: started_server_def start_def new_HttpServer_def listening_def Let_def)

lemma contentMap_started_server: "contentMap started_server = Map.empty"
  by (simp add: started_server_def start_def new_HttpServer_def Let_def)

text \<open>
  A URL that carries a query suffix is not served: the capture group of the path pattern
  takes the suffix into the document id.
\<close>

lemma match_doc_path_query:
  assumes "\<forall>c\<in>set d. is_alnum c"
  shows "match_doc_path (Some (''/doc/'' @ d @ ''?t=1'')) = Some (d @ ''?t=1'')"
proof -
  have "takeWhile (\<lambda>c. c \<noteq> CHR ''/'') (d @ ''?t=1'') = d @ ''?t=1''"
    using assms by (auto dest: slash_not_alnum)
  then show ?thesis
    by (simp add: match_doc_path_def Let_def del: takeWhile_eq_all_conv)
qed

lemma cache_busting_suffix_not_served:
  "map_option status
     (http_get (snd (registerContent documentUri text started_server))
        (fst (registerContent documentUri text started_server) @ ''?t=1'')) = Some 404"
proof -
  define s where "s = snd (registerContent documentUri text started_server)"
  have d: "\<forall>c\<in>set (docId documentUri). is_alnum c"
    by (auto simp: docId_alnum)
  have s: "listening s" "contentMap s (docId documentUri @ ''?t=1'') = None"
    using server_started_server
    by (simp_all add: s_def registerContent_def Let_def contentMap_started_server)
  have url: "fst (registerContent documentUri text started_server) @ ''?t=1'' =
             getServerUrl s @ ''/doc/'' @ (docId documentUri @ ''?t=1'')"
    by (simp add: s_def registerContent_def Let_def getServerUrl_def)
  have "http_get s (getServerUrl s @ ''/doc/'' @ (docId documentUri @ ''?t=1'')) =
        Some (handle_request s ''GET'' (Some (''/doc/'' @ (docId documentUri @ ''?t=1''))))"
    using s(1) by (rule http_get_doc)
  moreover have "status (handle_request s ''GET'' (Some (''/doc/'' @ docId documentUri @ ''?t=1''))) = 404"
    unfolding handle_request_def match_doc_path_query [OF d] using s(2) by simp
  ultimately show ?thesis
    unfolding url s_def [symmetric] by simp
qed

text \<open>
  The URL the view reloads from after an \<open>update\<close> message is not served either: the
  returned URL has no query part to strip, and the time stamp goes into the document id.
\<close>

lemma digit_char_is_digit: "d < 10 \<Longrightarrow> is_digit (digit_char d)"
  unfolding digit_char_def is_digit_def by (simp add: Let_def)

lemma decimal_digits: "c \<in> set (decimal n) \<Longrightarrow> is_digit c"
proof (induction n arbitrary: c rule: decimal.induct)
  case (1 n)
  show ?case
  proof (cases "10 \<le> n")
    case True
    then have d: "decimal n = decimal (n div 10) @ [digit_char (n mod 10)]"
      by (subst decimal.simps) simp
    from 1(2) show ?thesis
      unfolding d using 1(1) [OF True] by (auto intro: digit_char_is_digit)
  next
    case False
    then have d: "decimal n = [digit_char n]" by (subst decimal.simps) simp
    from 1(2) False show ?thesis unfolding d by (auto intro: digit_char_is_digit)
  qed
qed

lemma digit_not_separator: "is_digit c \<Longrightarrow> c \<noteq> CHR ''/'' \<and> c \<noteq> CHR ''?''"
  by (auto simp: is_digit_def Let_def)

lemma question_not_alnum: "is_alnum c \<Longrightarrow> c \<noteq> CHR ''?''"
  by (auto simp: is_alnum_def Let_def)

lemma getServerUrl_started_server: "getServerUrl started_server = ''http://localhost:3000''"
  by code_simp

lemma newUrl_of_returned_url:
  assumes "getServerUrl srv = ''http://localhost:3000''"
  shows "newUrl (getServerUrl srv @ ''/doc/'' @ docId documentUri) now =
         getServerUrl srv @ ''/doc/'' @ (docId documentUri @ ''?t='' @ decimal now)"
proof -
  have "\<forall>c\<in>set (''http://localhost:3000/doc/'' @ docId documentUri). c \<noteq> CHR ''?''"
    by (auto dest: docId_alnum question_not_alnum)
  then have "takeWhile (\<lambda>c. c \<noteq> CHR ''?'') (''http://localhost:3000/doc/'' @ docId documentUri) =
             ''http://localhost:3000/doc/'' @ docId documentUri"
    by (simp only: takeWhile_eq_all_conv)
  then show ?thesis
    by (simp add: newUrl_def assms del: takeWhile_eq_all_conv)
qed

lemma match_doc_path_time_stamp:
  assumes "\<forall>c\<in>set d. is_alnum c"
  shows "match_doc_path (Some (''/doc/'' @ (d @ ''?t='' @ decimal now))) = Some (d @ ''?t='' @ decimal now)"
proof -
  have "\<forall>c\<in>set (d @ ''?t='' @ decimal now). c \<noteq> CHR ''/''"
    using assms by (auto dest: slash_not_alnum decimal_digits digit_not_separator)
  then have "takeWhile (\<lambda>c. c \<noteq> CHR ''/'') (d @ ''?t='' @ decimal now) = d @ ''?t='' @ decimal now"
    by (simp only: takeWhile_eq_all_conv)
  then show ?thesis
    by (simp add: match_doc_path_def Let_def del: takeWhile_eq_all_conv)
qed

lemma reload_not_found:
  assumes "listening srv" "getServerUrl srv = ''http://localhost:3000''"
    and "\<forall>k. contentMap srv k \<noteq> None \<longrightarrow> k = docId documentUri"
  shows "map_option status
           (http_get srv (newUrl (getServerUrl srv @ ''/doc/'' @ docId documentUri) now)) = Some 404 \<and>
         map_option body
           (http_get srv (newUrl (getServerUrl srv @ ''/doc/'' @ docId documentUri) now)) =
           Some ''Document Not Found''"
proof -
  let ?d = "docId documentUri @ ''?t='' @ decimal now"
  have al: "\<forall>c\<in>set (docId documentUri). is_alnum c"
    by (auto simp: docId_alnum)
  have "?d \<noteq> docId documentUri" by simp
  then have miss: "contentMap srv ?d = None" using assms(3) by blast
  have "http_get srv (getServerUrl srv @ ''/doc/'' @ ?d) =
        Some (handle_request srv ''GET'' (Some (''/doc/'' @ ?d)))"
    using assms(1) by (rule http_get_doc)
  moreover have "status (handle_request srv ''GET'' (Some (''/doc/'' @ ?d))) = 404 \<and>
                 body (handle_request srv ''GET'' (Some (''/doc/'' @ ?d))) = ''Document Not Found''"
    unfolding handle_request_def match_doc_path_time_stamp [OF al] using miss by simp
  ultimately show ?thesis
    unfolding newUrl_of_returned_url [OF assms(2)] by simp
qed

lemma register_empty_document_id:
  "map_option status (register_then_get '''' text started_server) = Some 404"
proof -
  define s where
    "s = started_server\<lparr>contentMap := (contentMap started_server)(docId '''' \<mapsto> text)\<rparr>"
  have e: "docId '''' = ''''" by code_simp
  have s: "listening s" using server_started_server by (simp add: s_def)
  have "register_then_get '''' text started_server =
        http_get s (getServerUrl s @ ''/doc/'' @ docId '''')"
    unfolding s_def by (rule register_then_get_unfold)
  also have "\<dots> = Some (handle_request s ''GET'' (Some (''/doc/'' @ docId '''')))"
    using s by (rule http_get_doc)
  finally show ?thesis
    by (simp add: e handle_request_def match_doc_path_def)
qed

lemma register_empty_text:
  "map_option status (register_then_get documentUri '''' started_server) = Some 404"
proof (cases "documentUri = ''''")
  case True
  then show ?thesis by (simp add: register_empty_document_id)
next
  case False
  define s where
    "s = started_server\<lparr>contentMap := (contentMap started_server)(docId documentUri \<mapsto> '''')\<rparr>"
  have d: "docId documentUri \<noteq> ''''" "\<forall>c\<in>set (docId documentUri). is_alnum c"
    using False by (auto simp: docId_nonempty docId_alnum)
  have s: "listening s" "contentMap s (docId documentUri) = Some ''''"
    using server_started_server by (simp_all add: s_def)
  have "register_then_get documentUri '''' started_server =
        http_get s (getServerUrl s @ ''/doc/'' @ docId documentUri)"
    unfolding s_def by (rule register_then_get_unfold)
  also have "\<dots> = Some (handle_request s ''GET'' (Some (''/doc/'' @ docId documentUri)))"
    using s(1) by (rule http_get_doc)
  finally show ?thesis
    using handle_request_empty_content [OF d s(2)] by simp
qed


subsection \<open>Round trip of registered content\<close>

text \<open>
  The fetch of the returned URL itself. On a listening server, for every non-empty document
  id and every non-empty text, \<open>registerContent\<close> followed by a GET of the returned URL is
  answered 200 with exactly that text; and after \<open>updateContent\<close> with a non-empty second
  text, a GET of the same URL is answered 200 with exactly the second text.
\<close>

lemma register_update_roundtrip:
  assumes "listening srv" "documentUri \<noteq> ''''" "text \<noteq> ''''" "text2 \<noteq> ''''"
  shows "map_option status (register_then_get documentUri text srv) = Some 200 \<and>
         map_option body (register_then_get documentUri text srv) = Some text \<and>
         map_option status (register_update_then_get documentUri text text2 srv) = Some 200 \<and>
         map_option body (register_update_then_get documentUri text text2 srv) = Some text2"
proof -
  define s1 where "s1 = srv\<lparr>contentMap := (contentMap srv)(docId documentUri \<mapsto> text)\<rparr>"
  define s2 where "s2 = srv\<lparr>contentMap := (contentMap srv)(docId documentUri \<mapsto> text2)\<rparr>"
  have s1: "listening s1" "contentMap s1 (docId documentUri) = Some text"
    using assms(1) by (simp_all add: s1_def)
  have s2: "listening s2" "contentMap s2 (docId documentUri) = Some text2"
    using assms(1) by (simp_all add: s2_def)
  have r1: "register_then_get documentUri text srv =
            http_get s1 (getServerUrl s1 @ ''/doc/'' @ docId documentUri)"
    by (simp add: register_then_get_def registerContent_def Let_def s1_def getServerUrl_def)
  have r2: "register_update_then_get documentUri text text2 srv =
            http_get s2 (getServerUrl s2 @ ''/doc/'' @ docId documentUri)"
    by (simp add: register_update_then_get_def registerContent_def updateContent_def Let_def
        s2_def getServerUrl_def)
  show ?thesis
    unfolding r1 r2
    using get_stored_document [OF s1(1) assms(2) assms(3) s1(2)]
          get_stored_document [OF s2(1) assms(2) assms(4) s2(2)]
    by simp
qed

text \<open>
  The scenario of the specification: register \<open>doc1\<close>, update it to \<open>new\<close>, fetch.
\<close>

lemma register_update_roundtrip_witness:
  "(listening started_server \<and> ''doc1'' \<noteq> '''' \<and> ''old'' \<noteq> '''' \<and> ''new'' \<noteq> '''') \<and>
   map_option body (register_then_get ''doc1'' ''old'' started_server) = Some ''old'' \<and>
   map_option body (register_update_then_get ''doc1'' ''old'' ''new'' started_server) = Some ''new''"
  using server_started_server
    register_update_roundtrip [OF server_started_server, of "''doc1''" "''old''" "''new''"]
  by simp

text \<open>
  Claim C3. The round trip is broken at the fetch the view makes. After \<open>registerContent\<close>,
  and after a following \<open>updateContent\<close>, the URL the view reloads from on an \<open>update\<close>
  message, the returned URL with the cache-busting suffix \<open>?t=\<close> and the time, is answered
  404 for every document id, every text and every time: the path pattern of the handler
  reads the suffix as part of the document id. And a registered empty text is answered 404
  at the returned URL itself, because the handler tests the stored text for truthiness.
\<close>

theorem reload_after_update_not_found:
  "map_option status (register_then_reload documentUri text now started_server) = Some 404 \<and>
   map_option status (register_update_then_reload documentUri text text2 now started_server) = Some 404 \<and>
   map_option status (register_then_get documentUri '''' started_server) = Some 404"
proof (intro conjI)
  define s1 where
    "s1 = started_server\<lparr>contentMap := (contentMap started_server)(docId documentUri \<mapsto> text)\<rparr>"
  define s2 where
    "s2 = started_server\<lparr>contentMap := (contentMap started_server)(docId documentUri \<mapsto> text2)\<rparr>"
  have u: "getServerUrl s1 = ''http://localhost:3000''" "getServerUrl s2 = ''http://localhost:3000''"
    using getServerUrl_started_server by (simp_all add: s1_def s2_def getServerUrl_def)
  have l: "listening s1" "listening s2"
    using server_started_server by (simp_all add: s1_def s2_def)
  have k: "\<forall>k. contentMap s1 k \<noteq> None \<longrightarrow> k = docId documentUri"
    "\<forall>k. contentMap s2 k \<noteq> None \<longrightarrow> k = docId documentUri"
    by (simp_all add: s1_def s2_def contentMap_started_server)
  have r1: "register_then_reload documentUri text now started_server =
            http_get s1 (newUrl (getServerUrl s1 @ ''/doc/'' @ docId documentUri) now)"
    by (simp add: register_then_reload_def registerContent_def Let_def s1_def getServerUrl_def)
  have r2: "register_update_then_reload documentUri text text2 now started_server =
            http_get s2 (newUrl (getServerUrl s2 @ ''/doc/'' @ docId documentUri) now)"
    by (simp add: register_update_then_reload_def registerContent_def updateContent_def Let_def
        s2_def getServerUrl_def)
  show "map_option status (register_then_reload documentUri text now started_server) = Some 404"
    unfolding r1 using reload_not_found [OF l(1) u(1) k(1)] by blast
  show "map_option status (register_update_then_reload documentUri text text2 now started_server) =
        Some 404"
    unfolding r2 using reload_not_found [OF l(2) u(2) k(2)] by blast
  show "map_option status (register_then_get documentUri '''' started_server) = Some 404"
    by (rule register_empty_text)
qed

text \<open>
  The scenario of the specification with the view's fetch: \<open>doc1\<close> is registered, updated
  to \<open>new\<close>, and the view reloads at time 1.
\<close>

lemma reload_scenario:
  "fst (registerContent ''doc1'' ''old'' started_server) = ''http://localhost:3000/doc/ZG9jMQ'' \<and>
   newUrl (fst (registerContent ''doc1'' ''old'' started_server)) 1 =
     ''http://localhost:3000/doc/ZG9jMQ?t=1'' \<and>
   map_option body (register_update_then_get ''doc1'' ''old'' ''new'' started_server) = Some ''new'' \<and>
   map_option body (register_update_then_reload ''doc1'' ''old'' ''new'' 1 started_server) =
     Some ''Document Not Found''"
proof -
  have d: "docId ''doc1'' = ''ZG9jMQ''" by code_simp
  have one: "decimal (Suc 0) = ''1''" by code_simp
  have p: "decimal (port started_server) = ''3000''" by code_simp
  have url: "fst (registerContent ''doc1'' ''old'' started_server) = ''http://localhost:3000/doc/ZG9jMQ''"
    by (simp add: registerContent_def Let_def getServerUrl_def d p)
  have new: "newUrl ''http://localhost:3000/doc/ZG9jMQ'' 1 = ''http://localhost:3000/doc/ZG9jMQ?t=1''"
    by (simp add: newUrl_def one)
  define s2 where
    "s2 = started_server\<lparr>contentMap := (contentMap started_server)(docId ''doc1'' \<mapsto> ''new'')\<rparr>"
  have l: "listening s2" using server_started_server by (simp add: s2_def)
  have u: "getServerUrl s2 = ''http://localhost:3000''"
    using getServerUrl_started_server by (simp add: s2_def getServerUrl_def)
  have k: "\<forall>k. contentMap s2 k \<noteq> None \<longrightarrow> k = docId ''doc1''"
    by (simp add: s2_def contentMap_started_server)
  have r2: "register_update_then_reload ''doc1'' ''old'' ''new'' 1 started_server =
            http_get s2 (newUrl (getServerUrl s2 @ ''/doc/'' @ docId ''doc1'') 1)"
    by (simp add: register_update_then_reload_def registerContent_def updateContent_def Let_def
        s2_def getServerUrl_def)
  have b: "map_option body (register_update_then_reload ''doc1'' ''old'' ''new'' 1 started_server) =
           Some ''Document Not Found''"
    unfolding r2 using reload_not_found [OF l u k] by blast
  have g: "map_option body (register_update_then_get ''doc1'' ''old'' ''new'' started_server) = Some ''new''"
    using register_update_roundtrip [OF server_started_server, of "''doc1''" "''old''" "''new''"]
    by simp
  show ?thesis
    unfolding url using new b g by simp
qed

text \<open>
  The empty text on the document of the scenario: the handler tests the stored text for
  truthiness, and the registered empty document is answered 404.
\<close>

lemma register_empty_text_not_served:
  "map_option status (register_then_get ''doc1'' '''' started_server) = Some 404"
proof -
  define s where
    "s = started_server\<lparr>contentMap := (contentMap started_server)(docId ''doc1'' \<mapsto> '''')\<rparr>"
  have d: "docId ''doc1'' \<noteq> ''''" "\<forall>c\<in>set (docId ''doc1''). is_alnum c"
    by (auto simp: docId_nonempty docId_alnum)
  have s: "listening s" "contentMap s (docId ''doc1'') = Some ''''"
    using server_started_server by (simp_all add: s_def)
  have "register_then_get ''doc1'' '''' started_server =
        http_get s (getServerUrl s @ ''/doc/'' @ docId ''doc1'')"
    unfolding s_def by (rule register_then_get_unfold)
  also have "\<dots> = Some (handle_request s ''GET'' (Some (''/doc/'' @ docId ''doc1'')))"
    using s(1) by (rule http_get_doc)
  finally show ?thesis
    using handle_request_empty_content [OF d s(2)] by simp
qed


subsection \<open>Updating an unregistered document\<close>

text \<open>
  Claim C7, as the code has it. For every document id with no entry in the registry,
  \<open>updateContent\<close> stores the text under the identifier derived from the id, leaves every
  other entry as it was, and gives the same server state as \<open>registerContent\<close>.
\<close>

theorem updateContent_upsert:
  assumes "contentMap srv (docId documentUri) = None"
  shows "contentMap (updateContent documentUri text srv) (docId documentUri) = Some text \<and>
         (\<forall>k. k \<noteq> docId documentUri \<longrightarrow>
              contentMap (updateContent documentUri text srv) k = contentMap srv k) \<and>
         updateContent documentUri text srv = snd (registerContent documentUri text srv)"
  by (simp add: updateContent_def registerContent_def Let_def)

theorem updateContent_upsert_witness:
  "contentMap started_server (docId ''doc1'') = None \<and>
   contentMap (updateContent ''doc1'' ''new'' started_server) (docId ''doc1'') = Some ''new''"
proof -
  have h: "contentMap started_server (docId ''doc1'') = None"
    by (simp add: contentMap_started_server)
  show ?thesis using h updateContent_upsert [OF h, of "''new''"] by blast
qed

text \<open>
  The claim as it is stated, that the registry is left unchanged, fails on the fresh
  server: the update creates the entry.
\<close>

theorem updateContent_creates_entry:
  "contentMap new_HttpServer (docId ''doc1'') = None \<and>
   contentMap (updateContent ''doc1'' ''new'' new_HttpServer) (docId ''doc1'') = Some ''new''"
  by (simp add: new_HttpServer_def updateContent_def)


subsection \<open>Collisions of the document id\<close>

text \<open>
  Claim C9. The derived identifier is a function of the document id, so it is the same on
  every call; but it is not injective. Two documents of one directory, whose URIs agree on
  their first 24 bytes, get the same identifier, and registering the second replaces the
  text served at the URL of the first.
\<close>

theorem docId_collision:
  "''file:///home/user/project/a.yaml'' \<noteq> ''file:///home/user/project/b.yaml'' \<and>
   docId ''file:///home/user/project/a.yaml'' = docId ''file:///home/user/project/b.yaml'' \<and>
   map_option body (http_get
      (snd (registerContent ''file:///home/user/project/b.yaml'' ''swagger: 2.0''
         (snd (registerContent ''file:///home/user/project/a.yaml'' ''openapi: 3.0.0'' started_server))))
      (fst (registerContent ''file:///home/user/project/a.yaml'' ''openapi: 3.0.0'' started_server)))
     = Some ''swagger: 2.0''"
proof -
  let ?a = "''file:///home/user/project/a.yaml''"
  let ?b = "''file:///home/user/project/b.yaml''"
  define s1 where "s1 = snd (registerContent ?a ''openapi: 3.0.0'' started_server)"
  define s2 where "s2 = snd (registerContent ?b ''swagger: 2.0'' s1)"
  have ne: "?a \<noteq> ?b" by simp
  have eq: "docId ?a = docId ?b" by code_simp
  have s2: "listening s2" "contentMap s2 (docId ?a) = Some ''swagger: 2.0''"
    using server_started_server by (simp_all add: s2_def s1_def registerContent_def Let_def eq)
  have url: "fst (registerContent ?a ''openapi: 3.0.0'' started_server) =
             getServerUrl s2 @ ''/doc/'' @ docId ?a"
    by (simp add: s2_def s1_def registerContent_def Let_def getServerUrl_def)
  have "map_option body (http_get s2 (getServerUrl s2 @ ''/doc/'' @ docId ?a)) = Some ''swagger: 2.0''"
    using get_stored_document [OF s2(1) _ _ s2(2)] by simp
  then have fetch:
    "map_option body (http_get s2 (fst (registerContent ?a ''openapi: 3.0.0'' started_server))) =
      Some ''swagger: 2.0''"
    unfolding url by this
  show ?thesis
  proof (intro conjI)
    show "?a \<noteq> ?b" by (rule ne)
    show "docId ?a = docId ?b" by (rule eq)
    show "map_option body (http_get
      (snd (registerContent ?b ''swagger: 2.0'' (snd (registerContent ?a ''openapi: 3.0.0'' started_server))))
      (fst (registerContent ?a ''openapi: 3.0.0'' started_server))) = Some ''swagger: 2.0''"
      by (rule fetch [unfolded s2_def s1_def])
  qed
qed


text \<open>
  The identifier depends on the first 24 bytes of the URI only, when their base64 form has
  no \<open>+\<close> and no \<open>/\<close>: every two documents below such a prefix share it.
\<close>

lemma buffer_from_append: "buffer_from (a @ b) = buffer_from a @ buffer_from b"
  by (simp add: buffer_from_def)

lemma to_base64_append:
  "length xs mod 3 = 0 \<Longrightarrow> to_base64 (xs @ ys) = to_base64 xs @ to_base64 ys"
proof (induction xs rule: to_base64.induct)
  case (1 a b c rest)
  then show ?case by simp
next
  case (2 a b)
  then show ?case by simp
next
  case (3 a)
  then show ?case by simp
next
  case 4
  then show ?case by simp
qed

lemma length_to_base64:
  "length xs mod 3 = 0 \<Longrightarrow> length (to_base64 xs) = 4 * (length xs div 3)"
proof (induction xs rule: to_base64.induct)
  case (1 a b c rest)
  have "(3 + length rest) div 3 = Suc (length rest div 3)" by simp
  then show ?case using 1 by simp
qed simp_all

lemma docId_ignores_tail:
  assumes "length (buffer_from p) = 24" "\<forall>c\<in>set (to_base64 (buffer_from p)). is_alnum c"
  shows "docId (p @ x) = to_base64 (buffer_from p)"
proof -
  let ?A = "to_base64 (buffer_from p)"
  have l: "length ?A = 32"
    using length_to_base64 [of "buffer_from p"] assms(1) by simp
  have "to_base64 (buffer_from (p @ x)) = ?A @ to_base64 (buffer_from x)"
    using to_base64_append [of "buffer_from p" "buffer_from x"] assms(1)
    by (simp add: buffer_from_append)
  moreover have "filter is_alnum ?A = ?A"
    using assms(2) by (simp add: filter_id_conv)
  ultimately show ?thesis
    by (simp add: docId_def l)
qed

lemma docId_same_directory:
  "docId (''file:///home/user/projec'' @ x) = docId (''file:///home/user/projec'' @ y)"
proof -
  have 1: "length (buffer_from ''file:///home/user/projec'') = 24" by code_simp
  have 2: "\<forall>c\<in>set (to_base64 (buffer_from ''file:///home/user/projec'')). is_alnum c" by code_simp
  show ?thesis
    unfolding docId_ignores_tail [OF 1 2] ..
qed


section \<open>The matcher decides the language of the pattern\<close>

lemma accepts_empty_iff: "accepts_empty r \<longleftrightarrow> [] \<in> lang r"
  by (induction r) (auto intro: repetitions.none)

lemma lang_mk_seq: "lang (mk_seq r s) = lang (Seq r s)"
  by (cases "(r, s)" rule: mk_seq.cases) auto

lemma lang_mk_alt: "lang (mk_alt r s) = lang (Alt r s)"
  by (cases "(r, s)" rule: mk_alt.cases) auto

lemma repetitions_cons:
  "c # w \<in> repetitions A \<longleftrightarrow> (\<exists>u v. w = u @ v \<and> c # u \<in> A \<and> v \<in> repetitions A)"
proof
  assume "c # w \<in> repetitions A"
  then show "\<exists>u v. w = u @ v \<and> c # u \<in> A \<and> v \<in> repetitions A"
  proof (induction "c # w" arbitrary: w rule: repetitions.induct)
    case (more u v)
    show ?case
    proof (cases u)
      case Nil
      then show ?thesis using more by simp
    next
      case (Cons a u')
      then show ?thesis using more by auto
    qed
  qed
next
  assume "\<exists>u v. w = u @ v \<and> c # u \<in> A \<and> v \<in> repetitions A"
  then obtain u v where "w = u @ v" "c # u \<in> A" "v \<in> repetitions A" by blast
  then show "c # w \<in> repetitions A"
    using repetitions.more [of "c # u" A v] by simp
qed

lemma lang_after_char: "lang (after_char c r) = {w. c # w \<in> lang r}"
proof (induction r)
  case (Seq r s)
  show ?case
  proof (rule set_eqI)
    fix w
    have "c # w \<in> lang (Seq r s) \<longleftrightarrow>
          (\<exists>u v. w = u @ v \<and> c # u \<in> lang r \<and> v \<in> lang s) \<or> ([] \<in> lang r \<and> c # w \<in> lang s)"
      by (auto simp: Cons_eq_append_conv)
    then show "w \<in> lang (after_char c (Seq r s)) \<longleftrightarrow> w \<in> {w. c # w \<in> lang (Seq r s)}"
      using Seq by (auto simp: lang_mk_seq lang_mk_alt accepts_empty_iff)
  qed
next
  case (Star r)
  then show ?case
    by (auto simp: lang_mk_seq repetitions_cons)
qed (auto simp: lang_mk_alt)

lemma rx_prefix_iff: "rx_prefix r s \<longleftrightarrow> (\<exists>p q. s = p @ q \<and> p \<in> lang r)"
proof (induction s arbitrary: r)
  case Nil
  then show ?case by (simp add: accepts_empty_iff)
next
  case (Cons c cs)
  have "(\<exists>p q. c # cs = p @ q \<and> p \<in> lang r) \<longleftrightarrow>
        [] \<in> lang r \<or> (\<exists>p q. cs = p @ q \<and> c # p \<in> lang r)"
    by (auto simp: Cons_eq_append_conv)
  then show ?case
    by (simp add: Cons.IH accepts_empty_iff lang_after_char)
qed

lemma rx_test_iff: "rx_test r s \<longleftrightarrow> (\<exists>a p b. s = a @ p @ b \<and> p \<in> lang r)"
proof (induction s)
  case Nil
  then show ?case by (simp add: accepts_empty_iff)
next
  case (Cons c cs)
  have "(\<exists>a p b. c # cs = a @ p @ b \<and> p \<in> lang r) \<longleftrightarrow>
        (\<exists>p b. c # cs = p @ b \<and> p \<in> lang r) \<or> (\<exists>a p b. cs = a @ p @ b \<and> p \<in> lang r)"
  proof
    assume "\<exists>a p b. c # cs = a @ p @ b \<and> p \<in> lang r"
    then obtain a p b where h: "c # cs = a @ p @ b" "p \<in> lang r" by blast
    show "(\<exists>p b. c # cs = p @ b \<and> p \<in> lang r) \<or> (\<exists>a p b. cs = a @ p @ b \<and> p \<in> lang r)"
    proof (cases a)
      case Nil
      then show ?thesis using h by auto
    next
      case (Cons x a')
      then show ?thesis using h by auto
    qed
  next
    assume "(\<exists>p b. c # cs = p @ b \<and> p \<in> lang r) \<or> (\<exists>a p b. cs = a @ p @ b \<and> p \<in> lang r)"
    then show "\<exists>a p b. c # cs = a @ p @ b \<and> p \<in> lang r"
    proof
      assume "\<exists>p b. c # cs = p @ b \<and> p \<in> lang r"
      then obtain p b where "c # cs = [] @ p @ b" "p \<in> lang r" by auto
      then show ?thesis by blast
    next
      assume "\<exists>a p b. cs = a @ p @ b \<and> p \<in> lang r"
      then obtain a p b where "c # cs = (c # a) @ p @ b" "p \<in> lang r" by auto
      then show ?thesis by blast
    qed
  qed
  then show ?case
    using rx_prefix_iff [of r "c # cs"] by (simp add: Cons.IH del: rx_prefix.simps)
qed

lemma lang_rx_opt: "lang (rx_opt r) = insert [] (lang r)"
  by (auto simp: rx_opt_def)

lemma lang_rx_plus:
  "lang (rx_plus r) = {w. \<exists>u v. w = u @ v \<and> u \<in> lang r \<and> v \<in> repetitions (lang r)}"
  by (simp add: rx_plus_def)

lemma lang_rx_seqs_Cons: "lang (rx_seqs (r # rs)) = lang (Seq r (rx_seqs rs))"
  by (cases rs) auto

lemma lang_rx_word_i: "lang (rx_word_i w) = {x. list_all2 ignore_case_eq w x}"
proof (induction w rule: rx_word_i.induct)
  case 1
  then show ?case by auto
next
  case (2 c)
  then show ?case by (auto simp: list_all2_Cons1)
next
  case (3 c d cs)
  show ?case
    unfolding rx_word_i.simps lang.simps "3.IH"
  proof (rule set_eqI)
    fix x
    show "x \<in> {w. \<exists>u v. w = u @ v \<and> u \<in> {w. \<exists>ca. w = [ca] \<and> ignore_case_eq c ca} \<and>
                 v \<in> {x. list_all2 ignore_case_eq (d # cs) x}} \<longleftrightarrow>
          x \<in> {x. list_all2 ignore_case_eq (c # d # cs) x}"
    proof
      assume "x \<in> {w. \<exists>u v. w = u @ v \<and> u \<in> {w. \<exists>ca. w = [ca] \<and> ignore_case_eq c ca} \<and>
                 v \<in> {x. list_all2 ignore_case_eq (d # cs) x}}"
      then show "x \<in> {x. list_all2 ignore_case_eq (c # d # cs) x}" by auto
    next
      assume "x \<in> {x. list_all2 ignore_case_eq (c # d # cs) x}"
      then obtain y ys where x: "x = y # ys" "ignore_case_eq c y" "list_all2 ignore_case_eq (d # cs) ys"
        by (auto simp: list_all2_Cons1)
      then have "x = [y] @ ys" by simp
      then show "x \<in> {w. \<exists>u v. w = u @ v \<and> u \<in> {w. \<exists>ca. w = [ca] \<and> ignore_case_eq c ca} \<and>
                 v \<in> {x. list_all2 ignore_case_eq (d # cs) x}}"
        using x(2,3) by blast
    qed
  qed
qed

text \<open>
  \<open>hasOpenApiMarker\<close> holds exactly when some substring of the text is in the language of
  the marker pattern.
\<close>

lemma hasOpenApiMarker_iff:
  "hasOpenApiMarker s \<longleftrightarrow> (\<exists>a p b. s = a @ p @ b \<and> p \<in> lang OPENAPI_MARKER_REGEX)"
  by (simp add: hasOpenApiMarker_def rx_test_iff)

text \<open>The marker need not come first: text before and after a match keeps the match.\<close>

lemma hasOpenApiMarker_context:
  assumes "hasOpenApiMarker s"
  shows "hasOpenApiMarker (before @ s @ after)"
proof -
  from assms obtain a p b where "s = a @ p @ b" "p \<in> lang OPENAPI_MARKER_REGEX"
    unfolding hasOpenApiMarker_iff by blast
  then have "before @ s @ after = (before @ a) @ p @ (b @ after)" "p \<in> lang OPENAPI_MARKER_REGEX"
    by simp_all
  then show ?thesis
    unfolding hasOpenApiMarker_iff by blast
qed


section \<open>Properties of the file classifier\<close>

lemma endsWith_toLowerCase_iff:
  "endsWith (toLowerCase p) e \<longleftrightarrow> (\<exists>pre suf. p = pre @ suf \<and> toLowerCase suf = e)"
proof
  assume h: "endsWith (toLowerCase p) e"
  let ?k = "length p - length e"
  have "p = take ?k p @ drop ?k p" by simp
  moreover have "toLowerCase (drop ?k p) = e"
    using h by (simp add: endsWith_def toLowerCase_def drop_map)
  ultimately show "\<exists>pre suf. p = pre @ suf \<and> toLowerCase suf = e" by blast
next
  assume "\<exists>pre suf. p = pre @ suf \<and> toLowerCase suf = e"
  then obtain pre suf where p: "p = pre @ suf" and e: "toLowerCase suf = e" by blast
  have l: "length e = length suf" using e by (auto simp: toLowerCase_def)
  show "endsWith (toLowerCase p) e"
    using e by (simp add: endsWith_def toLowerCase_def p l)
qed

lemma hasOpenApiExtension_iff:
  "hasOpenApiExtension uri \<longleftrightarrow>
     (\<exists>pre suf. fsPath uri = pre @ suf \<and> toLowerCase suf \<in> {''.yaml'', ''.yml'', ''.json''})"
  unfolding hasOpenApiExtension_def Let_def OPENAPI_EXTENSIONS_def
  by (simp add: endsWith_toLowerCase_iff) blast

lemma extension_yaml: "hasOpenApiExtension (file_uri ''a.yaml'')"
  by code_simp

lemma extension_json: "hasOpenApiExtension (file_uri ''a.json'')"
  by code_simp

lemma extension_txt: "\<not> hasOpenApiExtension (file_uri ''a.txt'')"
  by code_simp

lemma extension_upper_case: "hasOpenApiExtension (file_uri ''/path/to/API.YAML'')"
  by code_simp

lemma marker_openapi: "hasOpenApiMarker ''openapi: 3.0.0''"
  by code_simp

lemma marker_absent: "\<not> hasOpenApiMarker ''title: not an api spec''"
  by code_simp

lemma marker_empty: "\<not> hasOpenApiMarker ''''"
  by code_simp

text \<open>
  Claim C4. \<open>isOpenApiDocument\<close> resolves to true exactly when the path ends, ignoring
  case, in \<open>.yaml\<close>, \<open>.yml\<close> or \<open>.json\<close> and the host opens the document and its text has the
  version marker. A path that fails the extension test opens no document. A document that
  the host cannot open, or whose text cannot be read, gives false: the function has no
  failing outcome.
\<close>

theorem isOpenApiDocument_iff:
  "fst (isOpenApiDocument openTextDocument uri) =
     ((\<exists>pre suf. fsPath uri = pre @ suf \<and> toLowerCase suf \<in> {''.yaml'', ''.yml'', ''.json''}) \<and>
      (\<exists>doc text. openTextDocument uri = Inr doc \<and> getText doc = Inr text \<and> hasOpenApiMarker text)) \<and>
   (\<not> hasOpenApiExtension uri \<longrightarrow> snd (isOpenApiDocument openTextDocument uri) = []) \<and>
   ((\<exists>e. openTextDocument uri = Inl e) \<longrightarrow> \<not> fst (isOpenApiDocument openTextDocument uri)) \<and>
   (\<forall>doc. openTextDocument uri = Inr doc \<and> (\<exists>e. getText doc = Inl e) \<longrightarrow>
       \<not> fst (isOpenApiDocument openTextDocument uri))"
  unfolding hasOpenApiExtension_iff [symmetric]
  by (auto simp: isOpenApiDocument_def split: sum.splits)

text \<open>
  The scenarios of the specification: \<open>a.yaml\<close> with the marker is accepted; the same text
  as \<open>a.txt\<close> is rejected and nothing is opened; \<open>a.json\<close> without the marker is rejected;
  \<open>a.yaml\<close> that cannot be opened is rejected.
\<close>

theorem isOpenApiDocument_iff_witness:
  "fst (isOpenApiDocument (host_with_text ''openapi: 3.0.0'') (file_uri ''a.yaml'')) \<and>
   \<not> fst (isOpenApiDocument (host_with_text ''openapi: 3.0.0'') (file_uri ''a.txt'')) \<and>
   snd (isOpenApiDocument (host_with_text ''openapi: 3.0.0'') (file_uri ''a.txt'')) = [] \<and>
   \<not> fst (isOpenApiDocument (host_with_text ''title: not an api spec'') (file_uri ''a.json'')) \<and>
   \<not> fst (isOpenApiDocument host_unreadable (file_uri ''a.yaml''))"
  using isOpenApiDocument_iff [of "host_with_text ''openapi: 3.0.0''" "file_uri ''a.yaml''"]
    isOpenApiDocument_iff [of "host_with_text ''openapi: 3.0.0''" "file_uri ''a.txt''"]
    isOpenApiDocument_iff [of "host_with_text ''title: not an api spec''" "file_uri ''a.json''"]
    isOpenApiDocument_iff [of host_unreadable "file_uri ''a.yaml''"]
    extension_yaml extension_json extension_txt marker_openapi marker_absent
  unfolding hasOpenApiExtension_iff [symmetric]
  by (simp add: host_with_text_def host_unreadable_def)


section \<open>Properties of the content reader\<close>

text \<open>
  Claim C6. When the host returns the raw bytes of a file and there are more than
  10 * 1024 * 1024 of them, \<open>readFile\<close> returns an unsuccessful result of kind \<open>TooLarge\<close>,
  whatever the decoder would do with the bytes: the size is checked on the bytes, and the
  decoder is not consulted.
\<close>

theorem readFile_too_large:
  assumes "fs_readFile uri = Inr fileData" "length fileData > 10 * 1024 * 1024"
  shows "success (readFile fs_readFile decode uri) = False \<and>
         content (readFile fs_readFile decode uri) = None \<and>
         map_option error_type (error (readFile fs_readFile decode uri)) = Some TooLarge"
  using assms by (simp add: readFile_def MAX_FILE_SIZE_def)

lemma length_eleven_MiB_file: "length eleven_MiB_file = 11 * 1024 * 1024"
  unfolding eleven_MiB_file_def by (rule length_replicate)

text \<open>The scenario of the specification: a file of 11 MiB.\<close>

theorem readFile_too_large_witness:
  "length eleven_MiB_file = 11 * 1024 * 1024 \<and>
   success (readFile (fs_with_file eleven_MiB_file) decode_throws (file_uri ''big.yaml'')) = False \<and>
   map_option error_type
     (error (readFile (fs_with_file eleven_MiB_file) decode_throws (file_uri ''big.yaml'')))
     = Some TooLarge"
proof -
  have h1: "fs_with_file eleven_MiB_file (file_uri ''big.yaml'') = Inr eleven_MiB_file"
    by (simp add: fs_with_file_def)
  have h2: "length eleven_MiB_file > 10 * 1024 * 1024"
    by (simp add: length_eleven_MiB_file)
  show ?thesis
    using readFile_too_large [where fs_readFile = "fs_with_file eleven_MiB_file"
        and uri = "file_uri ''big.yaml''" and fileData = eleven_MiB_file and decode = decode_throws,
        OF h1 h2] length_eleven_MiB_file
    by simp
qed

text \<open>Below the ceiling the decoder decides, and a missing file is \<open>NotFound\<close>.\<close>

lemma readFile_within_limit:
  assumes "fs_readFile uri = Inr fileData" "length fileData \<le> 10 * 1024 * 1024"
    and "decode fileData = Inr text"
  shows "readFile fs_readFile decode uri = \<lparr>success = True, content = Some text, error = None\<rparr>"
  using assms by (simp add: readFile_def MAX_FILE_SIZE_def)

lemma readFile_not_found:
  assumes "fs_readFile uri = Inl (ThrownObject True (Some ''FileNotFound'') m)"
  shows "map_option error_type (error (readFile fs_readFile decode uri)) = Some NotFound \<and>
         map_option error_message (error (readFile fs_readFile decode uri)) =
           Some (''File not found: '' @ fsPath uri)"
  using assms by (simp add: readFile_def read_failure_def determineErrorType_def getErrorMessage_def)


section \<open>Properties of the change watcher\<close>

subsection \<open>Debouncing\<close>

lemma dispatch_change_result:
  "dispatch_change doc subs (w, ws) =
     (if change_listeners doc subs = [] then (w, ws)
      else (w\<lparr>debounceTimer := Some \<lparr>deadline = clock ws + debounceDelay w, timer_doc = doc,
                 timer_reg = last (change_listeners doc subs)\<rparr>\<rparr>, ws))"
proof (induction subs arbitrary: w)
  case Nil
  then show ?case by simp
next
  case (Cons x subs)
  obtain h sub where x: "x = (h, sub)" by (cases x)
  show ?case
  proof (cases sub)
    case (ChangeSub reg)
    show ?thesis
    proof (cases "doc = reg_uri reg")
      case True
      let ?w = "w\<lparr>debounceTimer :=
        Some \<lparr>deadline = clock ws + debounceDelay w, timer_doc = doc, timer_reg = reg\<rparr>\<rparr>"
      have step: "dispatch_change doc (x # subs) (w, ws) = dispatch_change doc subs (?w, ws)"
        using True by (simp add: x ChangeSub debounceChange_def)
      have cl: "change_listeners doc (x # subs) = reg # change_listeners doc subs"
        using True by (simp add: x ChangeSub)
      show ?thesis
        unfolding step cl Cons.IH [of ?w] by simp
    next
      case False
      then show ?thesis by (simp add: Cons.IH x ChangeSub)
    qed
  next
    case (FsWatcherSub g)
    then show ?thesis by (simp add: Cons.IH x)
  next
    case (DeleteSub f reg)
    then show ?thesis by (simp add: Cons.IH x)
  next
    case (PanelListener p ev)
    then show ?thesis by (simp add: Cons.IH x)
  qed
qed

lemma fire_change_listened:
  assumes "change_listeners doc (subscriptions ws) \<noteq> []"
  shows "fire_change doc text (w, ws) =
     (w\<lparr>debounceTimer := Some \<lparr>deadline = clock ws + debounceDelay w, timer_doc = doc,
                 timer_reg = last (change_listeners doc (subscriptions ws))\<rparr>\<rparr>,
      ws\<lparr>documents := (documents ws)(doc := text)\<rparr>)"
  using assms by (simp add: fire_change_def dispatch_change_result)

lemma window_open_first:
  assumes "debounceTimer (fst s0) = None" "change_listeners doc (subscriptions (snd s0)) \<noteq> []"
  shows "window_open doc text s0 (fire_change doc text (advance gap s0))"
proof -
  obtain w ws where s0: "s0 = (w, ws)" by (cases s0)
  have a: "advance gap s0 = (w, ws\<lparr>clock := clock ws + gap\<rparr>)"
    using assms(1) by (simp add: s0 advance_def)
  show ?thesis
    unfolding a using assms(2)
    by (simp add: s0 fire_change_listened window_open_def)
qed

lemma window_open_next:
  assumes "window_open doc t s0 s" "gap < debounceDelay (fst s0)"
    and "change_listeners doc (subscriptions (snd s0)) \<noteq> []"
  shows "window_open doc text s0 (fire_change doc text (advance gap s))"
proof -
  obtain w ws where s: "s = (w, ws)" by (cases s)
  have a: "advance gap s = (w, ws\<lparr>clock := clock ws + gap\<rparr>)"
    using assms(1,2) by (simp add: s advance_def window_open_def)
  show ?thesis
    unfolding a using assms(1,3)
    by (simp add: s fire_change_listened window_open_def)
qed

lemma window_open_run_edits:
  assumes "window_open doc t s0 s" "\<forall>e\<in>set es. fst e < debounceDelay (fst s0)"
    and "change_listeners doc (subscriptions (snd s0)) \<noteq> []"
  shows "window_open doc (if es = [] then t else snd (last es)) s0 (run_edits doc es s)"
  using assms(1,2)
proof (induction es arbitrary: t s)
  case Nil
  then show ?case by simp
next
  case (Cons e es)
  obtain gap tx where e: "e = (gap, tx)" by (cases e)
  have "window_open doc tx s0 (fire_change doc tx (advance gap s))"
    using Cons.prems assms(3) by (auto simp: e intro: window_open_next)
  from Cons.IH [OF this] Cons.prems(2) show ?case
    by (auto simp: e)
qed

lemma window_open_settle:
  assumes "window_open doc t s0 s" "debounceDelay (fst s0) \<le> d"
  shows "calls (snd (advance d s)) =
           calls (snd s0) @ delivery (last (change_listeners doc (subscriptions (snd s0)))) t \<and>
         debounceTimer (fst (advance d s)) = None"
proof -
  obtain w ws where s: "s = (w, ws)" by (cases s)
  show ?thesis
    using assms
    by (simp add: s advance_def window_open_def fire_timer_def report_error_def delivery_def Let_def)
qed

text \<open>
  Claim C2. Take a watcher with no timer pending and at least one listener for the
  document, and a burst of one or more edits of the document in which every edit after the
  first comes less than the debounce delay after the edit before it. Once the delay has
  passed after the last edit, the log of calls has grown by exactly one \<open>onChanged\<close> call,
  which carries the text of the last edit (followed by the \<open>onError\<close> call when that
  callback throws); no text of an earlier edit is delivered.
\<close>

theorem debounce_one_delivery:
  assumes "es \<noteq> []" "debounceTimer (fst s) = None"
    and "change_listeners doc (subscriptions (snd s)) \<noteq> []"
    and "\<forall>e\<in>set (tl es). fst e < debounceDelay (fst s)"
    and "debounceDelay (fst s) \<le> d"
  shows "calls (snd (advance d (run_edits doc es s))) =
           calls (snd s) @
           delivery (last (change_listeners doc (subscriptions (snd s)))) (snd (last es))"
proof -
  obtain gap tx es' where es: "es = (gap, tx) # es'"
    using assms(1) by (cases es) auto
  have 1: "window_open doc tx s (fire_change doc tx (advance gap s))"
    using assms(2,3) by (rule window_open_first)
  have 2: "window_open doc (if es' = [] then tx else snd (last es')) s (run_edits doc es s)"
    using window_open_run_edits [OF 1 _ assms(3)] assms(4) by (simp add: es)
  have 3: "(if es' = [] then tx else snd (last es')) = snd (last es)"
    by (simp add: es)
  show ?thesis
    using window_open_settle [OF 2 assms(5)] unfolding 3 by simp
qed

lemma watching_one_facts:
  "debounceTimer (fst watching_one) = None"
  "debounceDelay (fst watching_one) = 500"
  "change_listeners ''file:///a.yaml'' (subscriptions (snd watching_one)) = [plain_registration ''/a.yaml'' 1]"
  "calls (snd watching_one) = []"
  by (simp_all add: watching_one_def fresh_watcher_def watch_def new_FileWatcher_def new_workspace_def
      subscribe_def plain_registration_def file_uri_def Let_def)

text \<open>Three edits within the default window of 500 ms: only the third text is delivered.\<close>

theorem debounce_one_delivery_witness:
  "debounceTimer (fst watching_one) = None \<and> debounceDelay (fst watching_one) = 500 \<and>
   calls (snd (advance 500
      (run_edits ''file:///a.yaml'' [(0, ''one''), (100, ''two''), (499, ''three'')] watching_one)))
     = [OnChanged 1 ''three'']"
  using debounce_one_delivery
    [of "[(0, ''one''), (100, ''two''), (499, ''three'')]" watching_one "''file:///a.yaml''" 500]
  by (simp add: watching_one_facts delivery_def plain_registration_def file_uri_def)

text \<open>An edit that comes later than the delay after the one before it starts a new window.\<close>

lemma debounce_two_windows:
  "calls (snd (advance 500
      (run_edits ''file:///a.yaml'' [(0, ''one''), (600, ''two'')] watching_one)))
     = [OnChanged 1 ''one'', OnChanged 1 ''two'']"
  by code_simp


text \<open>
  An edit of a document that has no listener leaves the watcher as it is. The timer is
  one per instance: with two documents watched by one instance, an edit of the second
  within the window of the first takes the place of the first's pending delivery.
\<close>

lemma fire_change_unwatched:
  assumes "change_listeners other (subscriptions ws) = []"
  shows "fire_change other tx (w, ws) = (w, ws\<lparr>documents := (documents ws)(other := tx)\<rparr>)"
  using assms by (simp add: fire_change_def dispatch_change_result)

lemma debounce_shared_timer:
  "calls (snd (advance 500 (fire_change ''file:///b.yaml'' ''B''
      (advance 100 (fire_change ''file:///a.yaml'' ''A'' watching_two))))) = [OnChanged 2 ''B'']"
  by code_simp


subsection \<open>The handle returned by \<open>watch\<close>\<close>

lemma subscriptions_unsubscribe:
  "subscriptions (unsubscribe h ws) = filter (\<lambda>(k, sub). k \<noteq> h) (subscriptions ws)"
  by (simp add: unsubscribe_def)

lemma subscriptions_fold_unsubscribe:
  "subscriptions (fold unsubscribe hs ws) = filter (\<lambda>(k, sub). k \<notin> set hs) (subscriptions ws)"
proof (induction hs arbitrary: ws)
  case Nil
  then show ?case by simp
next
  case (Cons h hs)
  show ?case
    by (simp add: Cons.IH subscriptions_unsubscribe case_prod_unfold conj_commute)
qed

lemma watch_returns_DisposeWatcher: "fst (watch fsw_throws reg s) = DisposeWatcher"
  by (simp add: watch_def Let_def split_def)

text \<open>
  Claim C8, as the code has it. The handle that any \<open>watch\<close> call returns does what
  \<open>dispose\<close> of the instance does: in whatever state it is disposed, every subscription
  listed by the instance, of every registration, is released, the pending debounce timer
  is cancelled and the list of disposables is emptied.
\<close>

theorem watch_handle_disposes_everything:
  "dispose_disposable (fst (watch fsw_throws reg s)) s' = dispose s' \<and>
   disposables (fst (dispose s')) = [] \<and>
   debounceTimer (fst (dispose s')) = None \<and>
   (\<forall>h\<in>set (disposables (fst s')). h \<notin> fst ` set (subscriptions (snd (dispose s'))))"
proof -
  obtain w ws where s': "s' = (w, ws)" by (cases s')
  have "dispose_disposable (fst (watch fsw_throws reg s)) s' = dispose s'"
    by (simp add: watch_returns_DisposeWatcher dispose_disposable_def)
  moreover have "disposables (fst (dispose s')) = []" "debounceTimer (fst (dispose s')) = None"
    by (simp_all add: dispose_def s')
  moreover have "\<forall>h\<in>set (disposables (fst s')). h \<notin> fst ` set (subscriptions (snd (dispose s')))"
    by (auto simp: dispose_def s' subscriptions_fold_unsubscribe)
  ultimately show ?thesis by blast
qed

theorem watch_handle_disposes_everything_witness:
  "dispose_disposable first_handle two_with_pending_edit = dispose two_with_pending_edit \<and>
   disposables (fst (dispose two_with_pending_edit)) = [] \<and>
   debounceTimer (fst (dispose two_with_pending_edit)) = None"
  using watch_handle_disposes_everything
    [of False "plain_registration ''/a.yaml'' 1" fresh_watcher two_with_pending_edit]
  by (simp add: first_handle_def)

lemma watching_two_facts:
  "disposables (fst watching_two) = [0, 2, 1, 3, 5, 4]"
  "map fst (subscriptions (snd watching_two)) = [0, 1, 2, 3, 4, 5]"
  "change_listeners ''file:///b.yaml'' (subscriptions (snd watching_two)) = [plain_registration ''/b.yaml'' 2]"
  "debounceDelay (fst watching_two) = 500"
  "clock (snd watching_two) = 0"
  "calls (snd watching_two) = []"
  by (simp_all add: watching_two_def watching_one_def fresh_watcher_def watch_def new_FileWatcher_def
      new_workspace_def subscribe_def plain_registration_def file_uri_def Let_def)

lemma two_with_pending_edit_facts:
  "disposables (fst two_with_pending_edit) = [0, 2, 1, 3, 5, 4]"
  "map fst (subscriptions (snd two_with_pending_edit)) = [0, 1, 2, 3, 4, 5]"
  "map_option deadline (debounceTimer (fst two_with_pending_edit)) = Some 500"
  "calls (snd two_with_pending_edit) = []"
proof -
  obtain w ws where s: "watching_two = (w, ws)" by (cases watching_two)
  have l: "change_listeners ''file:///b.yaml'' (subscriptions ws) \<noteq> []"
    using watching_two_facts(3) by (simp add: s)
  show "disposables (fst two_with_pending_edit) = [0, 2, 1, 3, 5, 4]"
    "map fst (subscriptions (snd two_with_pending_edit)) = [0, 1, 2, 3, 4, 5]"
    "map_option deadline (debounceTimer (fst two_with_pending_edit)) = Some 500"
    "calls (snd two_with_pending_edit) = []"
    using watching_two_facts
    unfolding two_with_pending_edit_def s fire_change_listened [OF l]
    by (simp_all add: s)
qed

text \<open>
  The claim as it is stated fails for two registrations on one instance. With an edit of
  the second document pending, disposing the handle of the first \<open>watch\<close> call leaves no
  subscription at all, cancels the pending timer of the second registration, and nothing
  is delivered afterwards.
\<close>

theorem first_handle_releases_second_registration:
  "map fst (subscriptions (snd two_with_pending_edit)) = [0, 1, 2, 3, 4, 5] \<and>
   map_option deadline (debounceTimer (fst two_with_pending_edit)) = Some 500 \<and>
   subscriptions (snd (dispose_disposable first_handle two_with_pending_edit)) = [] \<and>
   debounceTimer (fst (dispose_disposable first_handle two_with_pending_edit)) = None \<and>
   calls (snd (advance 500 (dispose_disposable first_handle two_with_pending_edit))) = []"
proof -
  obtain w ws where s: "two_with_pending_edit = (w, ws)" by (cases two_with_pending_edit)
  have d: "dispose_disposable first_handle two_with_pending_edit = dispose (w, ws)"
    by (simp add: first_handle_def watch_returns_DisposeWatcher dispose_disposable_def s)
  have f: "disposables w = [0, 2, 1, 3, 5, 4]" "map fst (subscriptions ws) = [0, 1, 2, 3, 4, 5]"
    "calls ws = []"
    using two_with_pending_edit_facts by (simp_all add: s)
  have "filter (\<lambda>(k, sub). k \<notin> set (disposables w)) (subscriptions ws) = []"
    using f(2) unfolding f(1) by (auto simp: filter_empty_conv) 
  then have sub: "subscriptions (snd (dispose (w, ws))) = []"
    by (simp add: dispose_def subscriptions_fold_unsubscribe)
  have calls_fold: "\<And>hs x. calls (fold unsubscribe hs x) = calls x"
  proof -
    fix hs x show "calls (fold unsubscribe hs x) = calls x"
      by (induction hs arbitrary: x) (simp_all add: unsubscribe_def)
  qed
  have c: "calls (snd (advance 500 (dispose (w, ws)))) = []"
    by (simp add: dispose_def advance_def calls_fold f(3))
  show ?thesis
    unfolding d using two_with_pending_edit_facts(2,3) sub c
    by (simp add: dispose_def)
qed


section \<open>Properties of the preview coordinator\<close>

subsection \<open>What the operations change\<close>

lemma previews_disposePreview:
  "previews (fst (disposePreview env u s)) = (previews (fst s))(u := None)"
  by (cases s) (auto simp: disposePreview_def Let_def split: option.splits)

lemma next_panel_disposePreview:
  "next_panel (snd (disposePreview env u s)) = next_panel (snd s)"
  by (cases s) (auto simp: disposePreview_def Let_def split: option.splits)

lemma panels_disposePreview:
  "panels (snd (disposePreview env u s)) = panels (snd s)"
  by (cases s) (auto simp: disposePreview_def Let_def split: option.splits)


lemma host_update_simps:
  "next_panel (set_html p h hs) = next_panel hs"
  "next_panel (post_message p m hs) = next_panel hs"
  "next_panel (notify n hs) = next_panel hs"
  "next_panel (reveal p c hs) = next_panel hs"
  "panels (notify n hs) = panels hs"
  by (simp_all add: set_html_def post_message_def notify_def reveal_def split: option.splits)

lemma panel_column_host_updates:
  "panel_column (set_html p h hs) q = panel_column hs q"
  "panel_column (post_message p m hs) q = panel_column hs q"
  "panel_column (reveal p c hs) q = panel_column hs q"
  "panel_column (notify n hs) q = panel_column hs q"
  by (simp_all add: panel_column_def set_html_def post_message_def reveal_def notify_def
      split: option.splits)

lemma createPreview_failed_simps:
  "fst (createPreview_failed env u s) = Inl (host_error env)"
  "previews (fst (snd (createPreview_failed env u s))) = (previews (fst s))(u := None)"
  "next_panel (snd (snd (createPreview_failed env u s))) = next_panel (snd s)"
  "panels (snd (snd (createPreview_failed env u s))) = panels (snd s)"
  by (cases s; simp add: createPreview_failed_def Let_def previews_disposePreview
      next_panel_disposePreview panels_disposePreview host_update_simps)+


lemma createPreview_outcome:
  "fst (createPreview env doc c s) =
     (if createWebviewPanel_throws env \<or> html_set_throws env then Inl (host_error env) else Inr ())"
  by (cases s) (simp add: createPreview_def Let_def split_def createPreview_failed_simps)

lemma createPreview_previews_other:
  assumes "u \<noteq> uri_toString (doc_uri doc)"
  shows "previews (fst (snd (createPreview env doc c s))) u = previews (fst s) u"
  using assms
  by (cases s) (simp add: createPreview_def Let_def split_def createPreview_failed_simps)

lemma createPreview_previews_failed:
  assumes "createWebviewPanel_throws env \<or> html_set_throws env"
  shows "previews (fst (snd (createPreview env doc c s))) (uri_toString (doc_uri doc)) = None"
  using assms
  by (cases s) (auto simp add: createPreview_def Let_def split_def createPreview_failed_simps)

lemma createPreview_previews_ok:
  assumes "\<not> createWebviewPanel_throws env" "\<not> html_set_throws env"
  shows "session_column (fst (snd (createPreview env doc c s))) (uri_toString (doc_uri doc)) = Some c \<and>
         session_panel (fst (snd (createPreview env doc c s))) (uri_toString (doc_uri doc)) =
           Some (next_panel (snd s)) \<and>
         lastColumnPositions (fst (snd (createPreview env doc c s))) =
           (lastColumnPositions (fst s))(uri_toString (doc_uri doc) \<mapsto> c)"
  using assms
  by (cases s) (simp add: createPreview_def Let_def split_def session_column_def session_panel_def)

lemma panel_column_createPreview_failed:
  "panel_column (snd (snd (createPreview_failed env u s))) q = panel_column (snd s) q"
  by (simp add: panel_column_def createPreview_failed_simps)

lemma createPreview_panel:
  assumes "\<not> createWebviewPanel_throws env"
  shows "panel_column (snd (snd (createPreview env doc c s))) (next_panel (snd s)) = Some c \<and>
         next_panel (snd (snd (createPreview env doc c s))) = Suc (next_panel (snd s))"
proof -
  obtain pm hs where s: "s = (pm, hs)" by (cases s)
  show ?thesis
    using assms
    by (simp add: s createPreview_def Let_def split_def createPreview_failed_simps host_update_simps
        panel_column_host_updates panel_column_createPreview_failed)
       (simp add: panel_column_def)
qed


lemma createOrShowPreview_new:
  assumes "previews pm (uri_toString (doc_uri doc)) = None"
  shows "createOrShowPreview env doc vc (pm, hs) =
         createPreview env doc
           (or_else vc (or_else (lastColumnPositions pm (uri_toString (doc_uri doc))) (getPreviewColumn env)))
           (pm, hs)"
  using assms by (simp add: createOrShowPreview_def Let_def)

lemma createOrShowPreview_reveal:
  assumes "previews pm (uri_toString (doc_uri doc)) = Some existing" "\<not> reveal_throws env"
  shows "createOrShowPreview env doc vc (pm, hs) =
         (Inr (), pm, reveal (panel existing) (or_else vc (lastViewColumn existing)) hs)"
  using assms by (simp add: createOrShowPreview_def Let_def)

lemma createOrShowPreview_recreate:
  assumes "previews pm (uri_toString (doc_uri doc)) = Some existing" "reveal_throws env"
  shows "createOrShowPreview env doc vc (pm, hs) =
         createPreview env doc
           (or_else vc (or_else (lastColumnPositions
               (fst (disposePreview env (uri_toString (doc_uri doc)) (pm, hs)))
               (uri_toString (doc_uri doc))) (getPreviewColumn env)))
           (disposePreview env (uri_toString (doc_uri doc)) (pm, hs))"
  using assms by (simp add: createOrShowPreview_def Let_def)

lemma createPreview_Inr:
  "fst (createPreview env doc c s) = Inr () \<longleftrightarrow>
     \<not> createWebviewPanel_throws env \<and> \<not> html_set_throws env"
  by (simp add: createPreview_outcome)

lemma createPreview_dom:
  assumes "fst (createPreview env doc c s) = Inr ()"
  shows "dom (previews (fst (snd (createPreview env doc c s)))) =
         insert (uri_toString (doc_uri doc)) (dom (previews (fst s)))"
proof -
  let ?u = "uri_toString (doc_uri doc)"
  let ?R = "createPreview env doc c s"
  have ok: "\<not> createWebviewPanel_throws env" "\<not> html_set_throws env"
    using assms by (simp_all add: createPreview_Inr)
  have "session_column (fst (snd ?R)) ?u = Some c"
    using createPreview_previews_ok [OF ok] by blast
  then have here: "?u \<in> dom (previews (fst (snd ?R)))"
    by (auto simp: session_column_def)
  have other: "\<And>u. u \<noteq> ?u \<Longrightarrow> previews (fst (snd ?R)) u = previews (fst s) u"
    by (rule createPreview_previews_other)
  show ?thesis
  proof (rule set_eqI)
    fix u
    show "u \<in> dom (previews (fst (snd ?R))) \<longleftrightarrow> u \<in> insert ?u (dom (previews (fst s)))"
    proof (cases "u = ?u")
      case True
      then show ?thesis using here by simp
    next
      case False
      then show ?thesis using other [OF False] by (simp add: dom_def)
    qed
  qed
qed

lemma show_twice_reveals:
  assumes "previews pm (uri_toString (doc_uri doc)) = None"
    and "fst (createOrShowPreview env1 doc vc1 (pm, hs)) = Inr ()"
    and "\<not> reveal_throws env2"
  shows "fst (show_twice env1 env2 doc vc1 vc2 (pm, hs)) = Inr ()"
proof -
  let ?u = "uri_toString (doc_uri doc)"
  let ?c1 = "or_else vc1 (or_else (lastColumnPositions pm ?u) (getPreviewColumn env1))"
  let ?R1 = "createPreview env1 doc ?c1 (pm, hs)"
  obtain pm1 hs1 where s1: "snd ?R1 = (pm1, hs1)" by (cases "snd ?R1")
  have first: "createOrShowPreview env1 doc vc1 (pm, hs) = ?R1"
    using assms(1) by (rule createOrShowPreview_new)
  have ok: "\<not> createWebviewPanel_throws env1" "\<not> html_set_throws env1"
    using assms(2) unfolding first by (simp_all add: createPreview_Inr)
  have "session_column pm1 ?u = Some ?c1"
    using createPreview_previews_ok [OF ok, of doc ?c1 "(pm, hs)"] by (simp add: s1)
  then obtain existing where ex: "previews pm1 ?u = Some existing"
    by (auto simp: session_column_def)
  show ?thesis
    using createOrShowPreview_reveal [OF ex assms(3)]
    by (simp add: show_twice_def first s1)
qed

lemma calm_env_simps:
  "\<not> createWebviewPanel_throws calm_env" "\<not> reveal_throws calm_env" "\<not> html_set_throws calm_env"
  "\<not> createFileSystemWatcher_throws calm_env" "getPreviewColumn calm_env = - 2"
  by (simp_all add: calm_env_def getPreviewColumn_def ViewColumn_Beside_def)

lemma fresh_manager_simps:
  "previews (fst fresh_manager) = Map.empty" "lastColumnPositions (fst fresh_manager) = Map.empty"
  "next_panel (snd fresh_manager) = 0"
  by (simp_all add: fresh_manager_def new_PreviewManager_def new_host_def)

subsection \<open>One session per document\<close>

text \<open>
  Claim C1. The session map has at most one entry per document by its type. For a
  document with no session, when \<open>createOrShowPreview\<close> is called twice in a row and both
  calls return, the map has an entry for the document and its only new key is the
  document. When the host reveals the panel, the second call leaves the coordinator as
  the first call left it, creates no panel, and reveals the panel of the first call.
\<close>

theorem createOrShowPreview_twice:
  assumes "previews pm (uri_toString (doc_uri doc)) = None"
    and "fst (createOrShowPreview env1 doc vc1 (pm, hs)) = Inr ()"
    and "fst (show_twice env1 env2 doc vc1 vc2 (pm, hs)) = Inr ()"
  shows "previews (fst (snd (show_twice env1 env2 doc vc1 vc2 (pm, hs)))) (uri_toString (doc_uri doc)) \<noteq> None \<and>
         dom (previews (fst (snd (show_twice env1 env2 doc vc1 vc2 (pm, hs))))) =
           insert (uri_toString (doc_uri doc)) (dom (previews pm)) \<and>
         (\<not> reveal_throws env2 \<longrightarrow>
            fst (snd (show_twice env1 env2 doc vc1 vc2 (pm, hs))) =
              fst (snd (createOrShowPreview env1 doc vc1 (pm, hs))) \<and>
            next_panel (snd (snd (show_twice env1 env2 doc vc1 vc2 (pm, hs)))) = Suc (next_panel hs) \<and>
            panel_revealed (snd (snd (show_twice env1 env2 doc vc1 vc2 (pm, hs)))) (next_panel hs) \<noteq> [])"
proof -
  let ?u = "uri_toString (doc_uri doc)"
  let ?c1 = "or_else vc1 (or_else (lastColumnPositions pm ?u) (getPreviewColumn env1))"
  let ?R1 = "createPreview env1 doc ?c1 (pm, hs)"
  obtain pm1 hs1 where s1: "snd ?R1 = (pm1, hs1)" by (cases "snd ?R1")
  have first: "createOrShowPreview env1 doc vc1 (pm, hs) = ?R1"
    using assms(1) by (rule createOrShowPreview_new)
  have ok1: "fst ?R1 = Inr ()" using assms(2) unfolding first .
  then have ok: "\<not> createWebviewPanel_throws env1" "\<not> html_set_throws env1"
    by (simp_all add: createPreview_Inr)
  have sess: "session_column pm1 ?u = Some ?c1" "session_panel pm1 ?u = Some (next_panel hs)"
    using createPreview_previews_ok [OF ok, of doc ?c1 "(pm, hs)"] by (simp_all add: s1)
  then obtain existing where ex: "previews pm1 ?u = Some existing" "panel existing = next_panel hs"
    by (auto simp: session_column_def session_panel_def)
  have dom1: "dom (previews pm1) = insert ?u (dom (previews pm))"
    using createPreview_dom [OF ok1] by (simp add: s1)
  have np1: "next_panel hs1 = Suc (next_panel hs)"
    and pc1: "panel_column hs1 (next_panel hs) = Some ?c1"
    using createPreview_panel [OF ok(1), of doc ?c1 "(pm, hs)"] by (simp_all add: s1)
  have twice: "show_twice env1 env2 doc vc1 vc2 (pm, hs) = createOrShowPreview env2 doc vc2 (pm1, hs1)"
    by (simp add: show_twice_def first s1)
  show ?thesis
  proof (cases "reveal_throws env2")
    case False
    have r: "createOrShowPreview env2 doc vc2 (pm1, hs1) =
             (Inr (), pm1, reveal (panel existing) (or_else vc2 (lastViewColumn existing)) hs1)"
      using ex(1) False by (rule createOrShowPreview_reveal)
    have "panels hs1 (next_panel hs) \<noteq> None"
      using pc1 by (auto simp: panel_column_def)
    then have rev: "panel_revealed (reveal (next_panel hs) (or_else vc2 (lastViewColumn existing)) hs1)
                      (next_panel hs) \<noteq> []"
      by (auto simp: panel_revealed_def reveal_def)
    show ?thesis
      unfolding twice r first
      using ex dom1 np1 rev by (simp add: s1 host_update_simps)
  next
    case True
    let ?s1' = "disposePreview env2 ?u (pm1, hs1)"
    let ?c2 = "or_else vc2 (or_else (lastColumnPositions (fst ?s1') ?u) (getPreviewColumn env2))"
    have r: "createOrShowPreview env2 doc vc2 (pm1, hs1) = createPreview env2 doc ?c2 ?s1'"
      using ex(1) True by (rule createOrShowPreview_recreate)
    have ok2: "fst (createPreview env2 doc ?c2 ?s1') = Inr ()"
      using assms(3) unfolding twice r .
    then have ok2': "\<not> createWebviewPanel_throws env2" "\<not> html_set_throws env2"
      by (simp_all add: createPreview_Inr)
    have "session_column (fst (snd (createPreview env2 doc ?c2 ?s1'))) ?u = Some ?c2"
      using createPreview_previews_ok [OF ok2'] by blast
    then have a: "previews (fst (snd (createPreview env2 doc ?c2 ?s1'))) ?u \<noteq> None"
      by (auto simp: session_column_def)
    have "dom (previews (fst (snd (createPreview env2 doc ?c2 ?s1')))) =
          insert ?u (dom (previews (fst ?s1')))"
      using ok2 by (rule createPreview_dom)
    also have "\<dots> = insert ?u (dom (previews pm))"
      using dom1 by (auto simp: previews_disposePreview)
    finally have b: "dom (previews (fst (snd (createPreview env2 doc ?c2 ?s1')))) =
          insert ?u (dom (previews pm))" .
    show ?thesis
      unfolding twice r using a b True by simp
  qed
qed


theorem createOrShowPreview_twice_witness:
  "previews (fst fresh_manager) (uri_toString (doc_uri (open_document ''/a.yaml'' ''openapi: 3.0.0''))) = None \<and>
   fst (createOrShowPreview calm_env (open_document ''/a.yaml'' ''openapi: 3.0.0'') None fresh_manager) = Inr () \<and>
   fst (show_twice calm_env calm_env (open_document ''/a.yaml'' ''openapi: 3.0.0'') None None fresh_manager) = Inr () \<and>
   previews (fst (snd (show_twice calm_env calm_env (open_document ''/a.yaml'' ''openapi: 3.0.0'') None None
      fresh_manager))) (uri_toString (doc_uri (open_document ''/a.yaml'' ''openapi: 3.0.0''))) \<noteq> None \<and>
   next_panel (snd (snd (show_twice calm_env calm_env (open_document ''/a.yaml'' ''openapi: 3.0.0'') None None
      fresh_manager))) = 1"
proof -
  let ?doc = "open_document ''/a.yaml'' ''openapi: 3.0.0''"
  let ?pm = "fst fresh_manager" and ?hs = "snd fresh_manager"
  have h1: "previews ?pm (uri_toString (doc_uri ?doc)) = None"
    by (simp add: fresh_manager_simps)
  have h2: "fst (createOrShowPreview calm_env ?doc None (?pm, ?hs)) = Inr ()"
    unfolding createOrShowPreview_new [OF h1] by (simp add: createPreview_outcome calm_env_simps)
  have h3: "fst (show_twice calm_env calm_env ?doc None None (?pm, ?hs)) = Inr ()"
    using h1 h2 calm_env_simps(2) by (rule show_twice_reveals)
  have c: "previews (fst (snd (show_twice calm_env calm_env ?doc None None (?pm, ?hs))))
             (uri_toString (doc_uri ?doc)) \<noteq> None"
    "next_panel (snd (snd (show_twice calm_env calm_env ?doc None None (?pm, ?hs)))) = Suc (next_panel ?hs)"
    using createOrShowPreview_twice [OF h1 h2 h3] calm_env_simps(2) by blast+
  show ?thesis
    using h1 h2 h3 c by (simp add: fresh_manager_simps(3))
qed

subsection \<open>Column Memory\<close>

lemma columns_tracked_new: "columns_tracked (new_PreviewManager bound)"
  by (simp add: columns_tracked_def new_PreviewManager_def)

lemma columns_tracked_disposePreview:
  assumes "columns_tracked (fst s)"
  shows "columns_tracked (fst (disposePreview env u s))"
  using assms
  by (cases s) (auto simp: columns_tracked_def disposePreview_def Let_def split: option.splits if_splits)

lemma columns_tracked_onDidChangeViewState:
  assumes "columns_tracked pm"
  shows "columns_tracked (onDidChangeViewState u reported pm)"
  using assms
  by (auto simp: columns_tracked_def onDidChangeViewState_def split: option.splits if_splits)

lemma columns_tracked_createPreview_failed:
  assumes "columns_tracked (fst s)"
  shows "columns_tracked (fst (snd (createPreview_failed env u s)))"
proof -
  obtain pm hs where s: "s = (pm, hs)" by (cases s)
  show ?thesis
    using columns_tracked_disposePreview [of "(pm, notify (ShowError (''Failed to create preview: '' @ describe_thrown (host_error env))) hs)" env u] assms
    by (simp add: s createPreview_failed_def Let_def)
qed

lemma columns_tracked_createPreview:
  assumes "columns_tracked (fst s)"
  shows "columns_tracked (fst (snd (createPreview env doc c s)))"
proof -
  obtain pm hs where s: "s = (pm, hs)" by (cases s)
  have step: "\<And>pv srv. columns_tracked
      (pm\<lparr>previews := (previews pm)(uri_toString (doc_uri doc) \<mapsto> pv\<lparr>lastViewColumn := c\<rparr>),
          lastColumnPositions := (lastColumnPositions pm)(uri_toString (doc_uri doc) \<mapsto> c),
          httpServer := srv\<rparr>)"
    using assms by (auto simp: columns_tracked_def s)
  show ?thesis
  proof (cases "createWebviewPanel_throws env")
    case True
    then show ?thesis
      using columns_tracked_createPreview_failed [OF assms]
      by (simp add: s createPreview_def Let_def)
  next
    case False
    show ?thesis
      using False assms
      apply (simp add: s createPreview_def Let_def split_def)
      apply (intro conjI impI columns_tracked_createPreview_failed)
      apply (auto simp: columns_tracked_def)
      done
  qed
qed

lemma columns_tracked_createOrShowPreview:
  assumes "columns_tracked (fst s)"
  shows "columns_tracked (fst (snd (createOrShowPreview env doc vc s)))"
proof -
  obtain pm hs where s: "s = (pm, hs)" by (cases s)
  show ?thesis
    using assms columns_tracked_createPreview columns_tracked_disposePreview [OF assms, of env]
    by (auto simp: s createOrShowPreview_def Let_def split: option.splits)
qed

lemma columns_tracked_updatePreview:
  assumes "columns_tracked (fst s)"
  shows "columns_tracked (fst (updatePreview env doc s))"
  using assms
  by (cases s) (auto simp: updatePreview_def Let_def split: option.splits)

lemma columns_tracked_preview_onChanged:
  assumes "columns_tracked (fst s)"
  shows "columns_tracked (fst (preview_onChanged u p tx s))"
  using assms
  by (cases s) (auto simp: preview_onChanged_def Let_def split_def columns_tracked_def)

text \<open>Every state the coordinator can reach keeps Column Memory in step with the sessions.\<close>

lemma reachable_columns_tracked: "reachable s \<Longrightarrow> columns_tracked (fst s)"
proof (induction rule: reachable.induct)
  case (constructed bound)
  then show ?case by (simp add: columns_tracked_new)
next
  case (shown s env doc vc)
  then show ?case by (simp add: columns_tracked_createOrShowPreview)
next
  case (updated s env doc)
  then show ?case by (simp add: columns_tracked_updatePreview)
next
  case (closed s env u)
  then show ?case by (simp add: columns_tracked_disposePreview)
next
  case (moved pm hs u reported)
  then show ?case by (simp add: columns_tracked_onDidChangeViewState)
next
  case (changed s u p tx)
  then show ?case by (simp add: columns_tracked_preview_onChanged)
qed





subsection \<open>Reading from the open document\<close>

lemma readFromDocument_text:
  assumes "getText doc = Inr tx"
  shows "readFromDocument doc = \<lparr>success = True, content = Some tx, error = None\<rparr>"
  using assms by (simp add: readFromDocument_def)

lemma panel_html_set_html:
  assumes "panels hs p \<noteq> None"
  shows "panel_html (set_html p h hs) p = Some h"
  using assms by (auto simp: panel_html_def set_html_def)

lemma createPreview_registers:
  assumes "getText doc = Inr tx" "tx \<noteq> ''''"
    and "\<not> createWebviewPanel_throws env" "\<not> html_set_throws env"
  shows "contentMap (httpServer (fst (snd (createPreview env doc c (pm, hs))))) (docId (uri_toString (doc_uri doc))) =
           Some tx \<and>
         panel_html (snd (snd (createPreview env doc c (pm, hs)))) (next_panel hs) =
           Some \<lparr>html_contentUrl = getServerUrl (httpServer pm) @ ''/doc/'' @ docId (uri_toString (doc_uri doc)),
                 html_errorMessage = None\<rparr>"
proof -
  have g: "\<And>m. getServerUrl ((httpServer pm)\<lparr>contentMap := m\<rparr>) = getServerUrl (httpServer pm)"
    by (simp add: getServerUrl_def)
  have p: "\<And>hs' p h. panels hs' p \<noteq> None \<Longrightarrow> panels (post_message p h hs') p \<noteq> None"
    by (auto simp: post_message_def)
  show ?thesis
    using assms
    by (simp add: createPreview_def Let_def split_def readFromDocument_text registerContent_def g
        panel_html_set_html p)
qed

lemma createPreview_empty:
  assumes "getText doc = Inr ''''"
    and "\<not> createWebviewPanel_throws env" "\<not> html_set_throws env"
  shows "httpServer (fst (snd (createPreview env doc c (pm, hs)))) = httpServer pm \<and>
         panel_html (snd (snd (createPreview env doc c (pm, hs)))) (next_panel hs) =
           Some \<lparr>html_contentUrl = ''about:blank'',
                 html_errorMessage = Some ''Failed to read file content''\<rparr>"
proof -
  have p: "\<And>hs' p h. panels hs' p \<noteq> None \<Longrightarrow> panels (post_message p h hs') p \<noteq> None"
    by (auto simp: post_message_def)
  have n: "\<And>hs' n p. panel_html (notify n hs') p = panel_html hs' p"
    by (simp add: panel_html_def notify_def)
  show ?thesis
    using assms
    by (simp add: createPreview_def Let_def split_def readFromDocument_text n panel_html_set_html p)
qed

lemma updatePreview_posts:
  assumes "getText doc = Inr tx" "tx \<noteq> ''''"
    and "previews pm (uri_toString (doc_uri doc)) = Some pv" "panels hs (panel pv) \<noteq> None"
  shows "panel_posted (snd (updatePreview env doc (pm, hs))) (panel pv) =
           panel_posted hs (panel pv) @ [UpdateMessage tx (date_now env)]"
  using assms
  by (auto simp: updatePreview_def Let_def readFromDocument_text panel_posted_def post_message_def)

text \<open>
  A text that carries the version marker is not empty. The two preview commands pass a
  document on only after \<open>isOpenApiDocument\<close> has found the marker in it.
\<close>

lemma hasOpenApiMarker_nonempty: "hasOpenApiMarker tx \<Longrightarrow> tx \<noteq> ''''"
  using marker_empty by auto

text \<open>
  Claim C10. For an open document whose text the host returns, \<open>readFromDocument\<close>
  succeeds with the full text, whatever its length: no size is compared, on this path or
  on the two that read through it. For every text that is not empty, of any length,
  creating the preview registers the full text with the content server and points the
  view at its URL, and \<open>updatePreview\<close> posts the full text to the panel.
\<close>

theorem readFromDocument_no_ceiling:
  assumes "getText doc = Inr tx"
  shows "readFromDocument doc = \<lparr>success = True, content = Some tx, error = None\<rparr> \<and>
         (tx \<noteq> '''' \<and> previews pm (uri_toString (doc_uri doc)) = None \<and>
          \<not> createWebviewPanel_throws env \<and> \<not> html_set_throws env \<longrightarrow>
            fst (createOrShowPreview env doc vc (pm, hs)) = Inr () \<and>
            contentMap (httpServer (fst (snd (createOrShowPreview env doc vc (pm, hs)))))
              (docId (uri_toString (doc_uri doc))) = Some tx \<and>
            panel_html (snd (snd (createOrShowPreview env doc vc (pm, hs)))) (next_panel hs) =
              Some \<lparr>html_contentUrl =
                      getServerUrl (httpServer pm) @ ''/doc/'' @ docId (uri_toString (doc_uri doc)),
                    html_errorMessage = None\<rparr>) \<and>
         (\<forall>pv. tx \<noteq> '''' \<and> previews pm (uri_toString (doc_uri doc)) = Some pv \<and>
               panels hs (panel pv) \<noteq> None \<longrightarrow>
            panel_posted (snd (updatePreview env doc (pm, hs))) (panel pv) =
              panel_posted hs (panel pv) @ [UpdateMessage tx (date_now env)])"
proof (intro conjI impI allI)
  show "readFromDocument doc = \<lparr>success = True, content = Some tx, error = None\<rparr>"
    using assms by (rule readFromDocument_text)
next
  assume a: "tx \<noteq> '''' \<and> previews pm (uri_toString (doc_uri doc)) = None \<and>
          \<not> createWebviewPanel_throws env \<and> \<not> html_set_throws env"
  then have new: "createOrShowPreview env doc vc (pm, hs) =
      createPreview env doc
        (or_else vc (or_else (lastColumnPositions pm (uri_toString (doc_uri doc))) (getPreviewColumn env)))
        (pm, hs)"
    by (simp add: createOrShowPreview_new)
  show "fst (createOrShowPreview env doc vc (pm, hs)) = Inr ()"
    unfolding new using a by (simp add: createPreview_outcome)
  show "contentMap (httpServer (fst (snd (createOrShowPreview env doc vc (pm, hs)))))
              (docId (uri_toString (doc_uri doc))) = Some tx"
    unfolding new using createPreview_registers [OF assms] a by blast
  show "panel_html (snd (snd (createOrShowPreview env doc vc (pm, hs)))) (next_panel hs) =
              Some \<lparr>html_contentUrl =
                      getServerUrl (httpServer pm) @ ''/doc/'' @ docId (uri_toString (doc_uri doc)),
                    html_errorMessage = None\<rparr>"
    unfolding new using createPreview_registers [OF assms] a by blast
next
  fix pv
  assume "tx \<noteq> '''' \<and> previews pm (uri_toString (doc_uri doc)) = Some pv \<and> panels hs (panel pv) \<noteq> None"
  then show "panel_posted (snd (updatePreview env doc (pm, hs))) (panel pv) =
              panel_posted hs (panel pv) @ [UpdateMessage tx (date_now env)]"
    using updatePreview_posts [OF assms] by blast
qed

lemma length_eleven_MiB_text: "length eleven_MiB_text = 11 * 1024 * 1024"
  unfolding eleven_MiB_text_def by (rule length_replicate)

lemma eleven_MiB_text_nonempty: "eleven_MiB_text \<noteq> ''''"
  using length_eleven_MiB_text by auto

text \<open>A document of 11 MiB, which \<open>readFile\<close> would refuse, is read and registered in full.\<close>

theorem readFromDocument_no_ceiling_witness:
  "MAX_FILE_SIZE < length eleven_MiB_text \<and>
   readFromDocument big_document = \<lparr>success = True, content = Some eleven_MiB_text, error = None\<rparr> \<and>
   fst (createOrShowPreview calm_env big_document None fresh_manager) = Inr () \<and>
   contentMap (httpServer (fst (snd (createOrShowPreview calm_env big_document None fresh_manager))))
     (docId (uri_toString (doc_uri big_document))) = Some eleven_MiB_text"
proof -
  have g: "getText big_document = Inr eleven_MiB_text"
    by (simp add: big_document_def open_document_def)
  have n: "previews (fst fresh_manager) (uri_toString (doc_uri big_document)) = None"
    by (simp add: fresh_manager_simps)
  have m: "MAX_FILE_SIZE < length eleven_MiB_text"
    by (simp add: MAX_FILE_SIZE_def length_eleven_MiB_text)
  show ?thesis
    using readFromDocument_no_ceiling [OF g, of "fst fresh_manager" calm_env None "snd fresh_manager"]
      n m eleven_MiB_text_nonempty calm_env_simps
    by simp
qed

text \<open>
  The empty text is set apart by a test of truthiness, not of size: the empty document is
  read with success, but \<^verbatim>\<open>!readResult.content\<close> holds of the empty string, so the
  creation path takes the branch of a failed read, registers nothing and shows the error
  view.
\<close>

lemma empty_document_not_accepted:
  "readFromDocument empty_document = \<lparr>success = True, content = Some '''', error = None\<rparr> \<and>
   contentMap (httpServer (fst (snd (createOrShowPreview calm_env empty_document None fresh_manager))))
     (docId (uri_toString (doc_uri empty_document))) = None \<and>
   panel_html (snd (snd (createOrShowPreview calm_env empty_document None fresh_manager))) 0 =
     Some \<lparr>html_contentUrl = ''about:blank'', html_errorMessage = Some ''Failed to read file content''\<rparr>"
proof -
  have g: "getText empty_document = Inr ''''"
    by (simp add: empty_document_def open_document_def)
  have n: "previews (fst fresh_manager) (uri_toString (doc_uri empty_document)) = None"
    by (simp add: fresh_manager_simps)
  have new: "createOrShowPreview calm_env empty_document None fresh_manager =
      createPreview calm_env empty_document
        (or_else None (or_else (lastColumnPositions (fst fresh_manager) (uri_toString (doc_uri empty_document)))
           (getPreviewColumn calm_env)))
        (fst fresh_manager, snd fresh_manager)"
    using createOrShowPreview_new [OF n, of calm_env None "snd fresh_manager"] by simp
  have srv: "contentMap (httpServer (fst fresh_manager)) = Map.empty"
    by (simp add: fresh_manager_def new_PreviewManager_def start_def new_HttpServer_def Let_def)
  show ?thesis
    unfolding new
    using createPreview_empty [OF g calm_env_simps(1) calm_env_simps(3), of _ "fst fresh_manager" "snd fresh_manager"]
      readFromDocument_text [OF g]
    by (simp add: srv fresh_manager_simps)
qed

end
